theory Spec2Isabelle
  imports Main "HOL-Library.AList" "HOL-Library.Sublist"
begin

section \<open>fast-ai: a client for OpenAI-style chat completions\<close>

text \<open>
  The repository holds several revisions of the same library side by side:
  \<^item> \<^verbatim>\<open>src/fastai.ts\<close>: the class \<^verbatim>\<open>OpenAI\<close> with the method \<^verbatim>\<open>chat\<close>, and
    \<^verbatim>\<open>createOpenAI\<close>, \<^verbatim>\<open>createTool\<close>, \<^verbatim>\<open>generateText\<close>, \<^verbatim>\<open>generateObject\<close> around it;
  \<^item> \<^verbatim>\<open>unnamed/part_004\<close> (its second file): the same class, with the method
    \<^verbatim>\<open>stream\<close> and a \<^verbatim>\<open>generateToolsJsonSchema\<close> that answers \<^verbatim>\<open>null\<close> for no
    tools (its first file, a revision between the bundle and the class, is not modelled);
  \<^item> \<^verbatim>\<open>unnamed/part_003\<close>, \<^verbatim>\<open>unnamed/part_001\<close> and \<^verbatim>\<open>dist/fast-ai.global.js\<close>:
    the bundled revision, where \<^verbatim>\<open>generateText\<close> holds the loop itself and keeps its
    tools in a \<^verbatim>\<open>Map\<close>.
  Definitions of the class revision carry the source's names; those of the bundled
  revision carry the suffix \<open>_bundle\<close>, those only in \<^verbatim>\<open>part_004\<close> the suffix \<open>_p4\<close>.
\<close>

subsection \<open>Values of the platform\<close>

text \<open>What \<^verbatim>\<open>JSON.parse\<close> returns.\<close>

datatype json =
    JNull
  | JBool bool
  | JNum int
  | JStr string
  | JArr "json list"
  | JObj "(string \<times> json) list"

text \<open>
  What the code throws: \<^verbatim>\<open>new Error(message)\<close>, and the errors of the platform and
  of zod (\<^verbatim>\<open>JSON.parse\<close>, property access on \<^verbatim>\<open>null\<close>, \<^verbatim>\<open>schema.parse\<close>, a
  rejected \<^verbatim>\<open>fetch\<close>).
\<close>

datatype error =
    Error string
  | SyntaxError
  | TypeError
  | ZodError
  | NetworkError

text \<open>A function of the source either returns or throws.\<close>

datatype 'a completion = Returned 'a | Threw error

text \<open>
  An optional string (\<^verbatim>\<open>string | undefined\<close>) is truthy when it is present and not
  empty; \<^verbatim>\<open>a || b\<close> is \<^verbatim>\<open>a\<close> when \<^verbatim>\<open>a\<close> is truthy and \<^verbatim>\<open>b\<close> otherwise,
  \<^verbatim>\<open>a ?? b\<close> is \<^verbatim>\<open>b\<close> only when \<^verbatim>\<open>a\<close> is absent.
\<close>

definition truthy :: "string option \<Rightarrow> bool" where
  "truthy a = (case a of None \<Rightarrow> False | Some s \<Rightarrow> s \<noteq> [])"

definition or_else :: "string option \<Rightarrow> string option \<Rightarrow> string option" where
  "or_else a b = (if truthy a then a else b)"

definition or_default :: "string option \<Rightarrow> string \<Rightarrow> string" where
  "or_default a d = (case a of None \<Rightarrow> d | Some s \<Rightarrow> if s = [] then d else s)"

definition nullish_default :: "string option \<Rightarrow> string \<Rightarrow> string" where
  "nullish_default a d = (case a of None \<Rightarrow> d | Some s \<Rightarrow> s)"

text \<open>\<^verbatim>\<open>s.replace(/\/$/, '')\<close>: one slash at the very end is removed.\<close>

definition strip_trailing_slash :: "string \<Rightarrow> string" where
  "strip_trailing_slash s = (if s \<noteq> [] \<and> last s = CHR ''/'' then butlast s else s)"

text \<open>\<^verbatim>\<open>s.replace(/\/chat\/completions$/, '')\<close>.\<close>

definition strip_chat_completions :: "string \<Rightarrow> string" where
  "strip_chat_completions s =
     (if suffix ''/chat/completions'' s then take (length s - length ''/chat/completions'') s
      else s)"

text \<open>
  What calling a function yields: a plain value, or a promise that resolves to a value.
  \<^verbatim>\<open>await\<close> reads both. The declared result of a tool's \<^verbatim>\<open>execute\<close> is a string
  or a promise of a string; a tool that throws is outside that type and is not modelled.
\<close>

datatype 'a returned = Plain 'a | Promise 'a

fun await :: "'a returned \<Rightarrow> 'a" where
  "await (Plain v) = v"
| "await (Promise v) = v"

text \<open>\<^verbatim>\<open>Promise.resolve(x)\<close>, and what an \<^verbatim>\<open>async\<close> function hands out for \<^verbatim>\<open>return x\<close>.\<close>

fun Promise_resolve :: "'a returned \<Rightarrow> 'a returned" where
  "Promise_resolve (Plain v) = Promise v"
| "Promise_resolve (Promise v) = Promise v"

fun async_return :: "'a returned \<Rightarrow> 'a returned" where
  "async_return (Plain v) = Promise v"
| "async_return (Promise v) = Promise v"

subsection \<open>The data model\<close>

datatype role = R_user | R_assistant | R_system | R_tool

text \<open>\<^verbatim>\<open>ToolCall\<close>; \<open>fn_name\<close> and \<open>fn_arguments\<close> are \<^verbatim>\<open>function.name\<close> and
  \<^verbatim>\<open>function.arguments\<close>.\<close>

record ToolCall =
  tc_index :: int
  tc_id :: string
  tc_type :: string
  fn_name :: string
  fn_arguments :: string

text \<open>\<^verbatim>\<open>ChatMessage\<close>. The type declares \<^verbatim>\<open>content\<close> a string; a message off the wire
  may carry \<^verbatim>\<open>content: null\<close> or no content at all, which is \<open>None\<close> here.\<close>

record ChatMessage =
  role :: role
  content :: "string option"
  tool_calls :: "ToolCall list option"
  tool_call_id :: "string option"

text \<open>
  A zod schema, by the two things the code does with it: \<^verbatim>\<open>schema.parse(v)\<close>
  (\<open>None\<close> when it throws) and \<^verbatim>\<open>zodToJsonSchema(schema)\<close>.
\<close>

record schema =
  zod_parse :: "json \<Rightarrow> json option"
  zodToJsonSchema :: json

record Tool =
  name :: string
  description :: "string option"
  parameters :: schema
  execute :: "json \<Rightarrow> string returned"

subsection \<open>createTool\<close>

text \<open>\<^verbatim>\<open>src/fastai.ts\<close>: \<^verbatim>\<open>return options\<close>.\<close>

definition createTool :: "Tool \<Rightarrow> Tool" where
  "createTool options = options"

text \<open>The bundle: \<^verbatim>\<open>async (args) => { return Promise.resolve(options.execute(args)) }\<close>.\<close>

definition wrappedExecute :: "Tool \<Rightarrow> json \<Rightarrow> string returned" where
  "wrappedExecute options args = async_return (Promise_resolve (execute options args))"

definition createTool_bundle :: "Tool \<Rightarrow> Tool" where
  "createTool_bundle options =
     \<lparr>name = name options,
      description = description options,
      parameters = parameters options,
      execute = wrappedExecute options\<rparr>"

subsection \<open>createOpenAI\<close>

record CreateOpenAIOptions =
  opt_baseURL :: "string option"
  opt_apiKey :: "string option"
  opt_model :: "string option"

text \<open>A callback is known by its label; calling it is an event of the trace, and the call
  returns (a callback that throws is not modelled).\<close>

datatype callback = Callback string

type_synonym addr = nat

text \<open>
  The class \<^verbatim>\<open>OpenAI\<close>. The field \<open>messages\<close> holds a reference to an array of the
  store (\<open>None\<close> while it is unassigned, as after \<^verbatim>\<open>new OpenAI()\<close> in
  \<^verbatim>\<open>src/fastai.ts\<close>).
\<close>

record OpenAI =
  baseURL_field :: string
  apiKey :: string
  endpoint :: string
  model :: string
  messages :: "addr option"
  tools :: "Tool list"
  onToolCall :: "callback option"

text \<open>The setter \<^verbatim>\<open>set baseURL\<close>.\<close>

definition set_baseURL :: "string \<Rightarrow> OpenAI \<Rightarrow> OpenAI" where
  "set_baseURL baseURL self =
     self\<lparr>baseURL_field := strip_trailing_slash baseURL,
          endpoint := strip_trailing_slash baseURL @ ''/chat/completions''\<rparr>"

text \<open>\<^verbatim>\<open>new OpenAI()\<close> of \<^verbatim>\<open>src/fastai.ts\<close>: no field has an initialiser.\<close>

definition new_OpenAI :: OpenAI where
  "new_OpenAI =
     \<lparr>baseURL_field = [], apiKey = [], endpoint = [], model = [],
      messages = None, tools = [], onToolCall = None\<rparr>"

text \<open>\<^verbatim>\<open>createOpenAI\<close> of \<^verbatim>\<open>src/fastai.ts\<close>, over the environment \<^verbatim>\<open>process.env\<close>.\<close>

definition createOpenAI :: "(string \<Rightarrow> string option) \<Rightarrow> CreateOpenAIOptions \<Rightarrow> OpenAI" where
  "createOpenAI env options =
     (let openai = new_OpenAI;
          openai = set_baseURL
            (or_default (or_else (opt_baseURL options) (env ''OPENAI_BASE_URL''))
               ''https://api.openai.com/v1'') openai;
          openai = openai\<lparr>model :=
            or_default (or_else (opt_model options) (env ''OPENAI_MODEL'')) []\<rparr>;
          openai = openai\<lparr>apiKey :=
            or_default (or_else (opt_apiKey options) (env ''OPENAI_API_KEY'')) []\<rparr>
      in openai)"

text \<open>The default argument \<^verbatim>\<open>options = {}\<close>.\<close>

definition no_options :: CreateOpenAIOptions where
  "no_options = \<lparr>opt_baseURL = None, opt_apiKey = None, opt_model = None\<rparr>"

text \<open>The bundle: the client is a function with the fields \<^verbatim>\<open>baseURL\<close> and
  \<^verbatim>\<open>apiKey\<close>; applied to a model name it gives a \<^verbatim>\<open>ChatModelRef\<close>.\<close>

record ChatModelRef =
  provider :: string
  ref_endpoint :: string
  ref_model :: string
  ref_apiKey :: string

record OpenAIClient =
  client_baseURL :: string
  client_apiKey :: string

definition builder :: "OpenAIClient \<Rightarrow> string \<Rightarrow> ChatModelRef" where
  "builder client modelName =
     \<lparr>provider = ''openai'',
      ref_endpoint = client_baseURL client @ ''/chat/completions'',
      ref_model = modelName,
      ref_apiKey = client_apiKey client\<rparr>"

record CreateOpenAIOptions_bundle =
  bopt_baseURL :: "string option"
  bopt_apiKey :: "string option"

definition createOpenAI_bundle :: "CreateOpenAIOptions_bundle \<Rightarrow> error + OpenAIClient" where
  "createOpenAI_bundle options =
     (let base = strip_trailing_slash
            (nullish_default (bopt_baseURL options) ''https://api-inference.modelscope.cn/v1'');
          apiKey = bopt_apiKey options
      in if \<not> truthy apiKey then Inl (Error ''apiKey is required'')
         else Inr \<lparr>client_baseURL = base, client_apiKey = nullish_default apiKey []\<rparr>)"

subsection \<open>The store, the transport and the trace\<close>

text \<open>
  Arrays of messages are shared by reference, so they live in a store: \<open>arrays\<close> maps a
  reference to the array's elements, \<open>next_free\<close> is the next unused reference. The
  server is a state machine driven through \<^verbatim>\<open>fetch\<close>; the trace lists, in order,
  the effects that leave the library (a request sent, a callback called, a tool run, the
  reader released) and, to tell their place among these, the lookups in the registry.
\<close>

text \<open>A property of an object literal: left out (\<^verbatim>\<open>undefined\<close>), \<^verbatim>\<open>null\<close>, or a value.\<close>

datatype 'a field = Undefined | Null | Value 'a

text \<open>The descriptor of a tool, \<^verbatim>\<open>{type: 'function', function: {name, description, parameters}}\<close>.\<close>

record descriptor =
  d_type :: string
  d_name :: string
  d_description :: "string option"
  d_parameters :: json

definition descriptor_of :: "Tool \<Rightarrow> descriptor" where
  "descriptor_of t =
     \<lparr>d_type = ''function'',
      d_name = name t,
      d_description = description t,
      d_parameters = zodToJsonSchema (parameters t)\<rparr>"

text \<open>The object handed to \<^verbatim>\<open>JSON.stringify\<close> as the request's body.\<close>

record body =
  b_model :: string
  b_messages :: "ChatMessage list field"
  b_tools :: "descriptor list field"
  b_stream :: "bool field"

text \<open>
  The keys of the serialised body: \<^verbatim>\<open>JSON.stringify\<close> leaves a property out when its
  value is \<^verbatim>\<open>undefined\<close> and writes \<^verbatim>\<open>null\<close> or the value otherwise.
\<close>

definition JSON_stringify_keys :: "body \<Rightarrow> string list" where
  "JSON_stringify_keys b =
     [''model'']
     @ (if b_messages b = Undefined then [] else [''messages''])
     @ (if b_tools b = Undefined then [] else [''tools''])
     @ (if b_stream b = Undefined then [] else [''stream''])"

record request =
  url :: string
  authorization :: string
  body :: body

record choice =
  message :: "ChatMessage option"

record ChatRespose =
  choices :: "choice list option"

text \<open>
  An HTTP response: \<open>json_body\<close> is what \<^verbatim>\<open>r.json()\<close> resolves to (\<open>None\<close> when
  it rejects), \<open>stream_body\<close> the chunks a reader of \<^verbatim>\<open>response.body\<close> yields
  before it reports the end (\<open>None\<close> when the body is \<^verbatim>\<open>null\<close>).
\<close>

record Response =
  ok :: bool
  status :: nat
  json_body :: "ChatRespose option"
  stream_body :: "string list option"

text \<open>
  The platform of a run: \<^verbatim>\<open>fetch\<close> over the server's state, \<^verbatim>\<open>JSON.parse\<close>
  (\<open>None\<close> when it throws its \<^verbatim>\<open>SyntaxError\<close>), \<^verbatim>\<open>process.env\<close>, and the text that
  \<^verbatim>\<open>${e}\<close> gives for the error \<^verbatim>\<open>e\<close> that \<^verbatim>\<open>JSON.parse\<close> throws on a text or the
  schema of \<^verbatim>\<open>generateObject\<close> throws on a value; the wording is the platform's and
  zod's.
\<close>

record 's platform =
  fetch :: "'s \<Rightarrow> request \<Rightarrow> (error + Response) \<times> 's"
  JSON_parse :: "string \<Rightarrow> json option"
  process_env :: "string \<Rightarrow> string option"
  syntax_error_text :: "string \<Rightarrow> string"
  zod_error_text :: "json \<Rightarrow> string"

datatype event =
    Fetch request
  | OnToolCall callback string
  | Lookup string
  | Execute string json
  | OnMsg json bool
  | ReleaseLock

record 's world =
  arrays :: "addr \<Rightarrow> ChatMessage list"
  next_free :: addr
  server :: 's
  trace :: "event list"

definition emit :: "event \<Rightarrow> 's world \<Rightarrow> 's world" where
  "emit e w = w\<lparr>trace := trace w @ [e]\<rparr>"

text \<open>\<^verbatim>\<open>array.push(m)\<close>.\<close>

definition push :: "addr \<Rightarrow> ChatMessage \<Rightarrow> 's world \<Rightarrow> 's world" where
  "push a m w = w\<lparr>arrays := (arrays w)(a := arrays w a @ [m])\<rparr>"

text \<open>A new array with the given elements, as \<^verbatim>\<open>[...xs]\<close> makes one.\<close>

definition alloc :: "ChatMessage list \<Rightarrow> 's world \<Rightarrow> addr \<times> 's world" where
  "alloc xs w =
     (next_free w,
      w\<lparr>arrays := (arrays w)(next_free w := xs), next_free := Suc (next_free w)\<rparr>)"

text \<open>\<^verbatim>\<open>fetch(url, {method: 'POST', headers, body})\<close>.\<close>

definition post :: "'s platform \<Rightarrow> request \<Rightarrow> 's world \<Rightarrow> (error + Response) \<times> 's world" where
  "post P req w =
     (case fetch P (server w) req of
        (res, s) \<Rightarrow> (res, (emit (Fetch req) w)\<lparr>server := s\<rparr>))"

text \<open>\<^verbatim>\<open>res.choices?.[0]?.message\<close>.\<close>

definition first_message :: "ChatRespose \<Rightarrow> ChatMessage option" where
  "first_message res =
     (case choices res of
        None \<Rightarrow> None
      | Some [] \<Rightarrow> None
      | Some (c # _) \<Rightarrow> message c)"

text \<open>How a loop body ends: it falls through, or it returns or throws.\<close>

datatype 'a flow = Normal | Abrupt "'a completion"

subsection \<open>The class revision: OpenAI.chat, generateText, generateObject\<close>

text \<open>\<^verbatim>\<open>generateToolsJsonSchema\<close> of \<^verbatim>\<open>src/fastai.ts\<close> and of \<^verbatim>\<open>part_004\<close>.\<close>

definition generateToolsJsonSchema :: "Tool list \<Rightarrow> descriptor list field" where
  "generateToolsJsonSchema ts = Value (map descriptor_of ts)"

definition generateToolsJsonSchema_p4 :: "Tool list \<Rightarrow> descriptor list field" where
  "generateToolsJsonSchema_p4 ts =
     (if ts = [] then Null else Value (map descriptor_of ts))"

text \<open>\<^verbatim>\<open>if (this.onToolCall) tool_calls.forEach(call => this.onToolCall?.(call.function.name))\<close>.\<close>

definition notify :: "callback option \<Rightarrow> ToolCall list \<Rightarrow> 's world \<Rightarrow> 's world" where
  "notify cb calls w =
     (case cb of
        None \<Rightarrow> w
      | Some f \<Rightarrow> fold (\<lambda>call. emit (OnToolCall f (fn_name call))) calls w)"

definition tool_message :: "string \<Rightarrow> ToolCall \<Rightarrow> ChatMessage" where
  "tool_message result call =
     \<lparr>role = R_tool, content = Some result, tool_calls = None, tool_call_id = Some (tc_id call)\<rparr>"

text \<open>The loop \<^verbatim>\<open>for (const call of tool_calls)\<close> of \<^verbatim>\<open>chat\<close>, over the array \<open>a\<close> that
  \<^verbatim>\<open>this.messages\<close> refers to.\<close>

fun for_calls ::
  "'s platform \<Rightarrow> OpenAI \<Rightarrow> bool \<Rightarrow> addr \<Rightarrow> ToolCall list \<Rightarrow> 's world \<Rightarrow> string flow \<times> 's world"
where
  "for_calls P self generateObject a [] w = (Normal, w)"
| "for_calls P self generateObject a (call # rest) w =
     (let w1 = emit (Lookup (fn_name call)) w in
      case find (\<lambda>t. name t = fn_name call) (tools self) of
        None \<Rightarrow> (Abrupt (Threw (Error (''Tool '' @ fn_name call @ '' not found''))), w1)
      | Some tool \<Rightarrow>
          if generateObject then (Abrupt (Returned (fn_arguments call)), w1)
          else
            (case JSON_parse P (fn_arguments call) of
               None \<Rightarrow> (Abrupt (Threw SyntaxError), w1)
             | Some parsed \<Rightarrow>
                 (case zod_parse (parameters tool) parsed of
                    None \<Rightarrow> (Abrupt (Threw ZodError), w1)
                  | Some args \<Rightarrow>
                      (let result = await (execute tool args);
                           w2 = emit (Execute (name tool) args) w1;
                           w3 = push a (tool_message result call) w2
                       in for_calls P self generateObject a rest w3))))"

definition chat_request ::
  "(Tool list \<Rightarrow> descriptor list field) \<Rightarrow> OpenAI \<Rightarrow> 's world \<Rightarrow> request" where
  "chat_request toolsJson self w =
     \<lparr>url = endpoint self,
      authorization = ''Bearer '' @ apiKey self,
      body = \<lparr>b_model = model self,
              b_messages = (case messages self of None \<Rightarrow> Undefined | Some a \<Rightarrow> Value (arrays w a)),
              b_tools = toolsJson (tools self),
              b_stream = Undefined\<rparr>\<rparr>"

text \<open>One turn of \<^verbatim>\<open>while (true)\<close> in \<^verbatim>\<open>chat\<close>. The parameter \<open>toolsJson\<close> is the
  file's \<^verbatim>\<open>generateToolsJsonSchema\<close>, the one place where the method differs
  between \<^verbatim>\<open>src/fastai.ts\<close> and \<^verbatim>\<open>part_004\<close>.\<close>

definition chat_round ::
  "(Tool list \<Rightarrow> descriptor list field) \<Rightarrow> 's platform \<Rightarrow> OpenAI \<Rightarrow> bool \<Rightarrow> 's world
     \<Rightarrow> string flow \<times> 's world"
where
  "chat_round toolsJson P self generateObject w =
     (case post P (chat_request toolsJson self w) w of
        (Inl e, w1) \<Rightarrow> (Abrupt (Threw e), w1)
      | (Inr r, w1) \<Rightarrow>
          (case json_body r of
             None \<Rightarrow> (Abrupt (Threw SyntaxError), w1)
           | Some res \<Rightarrow>
               (case first_message res of
                  None \<Rightarrow> (Abrupt (Threw (Error ''No assistant message returned'')), w1)
                | Some assistant \<Rightarrow>
                    (case messages self of
                       None \<Rightarrow> (Abrupt (Threw TypeError), w1)
                     | Some a \<Rightarrow>
                         (let w2 = push a assistant w1 in
                          case tool_calls assistant of
                            None \<Rightarrow>
                              (Abrupt (Returned (or_default (content assistant) [])), w2)
                          | Some calls \<Rightarrow>
                              if calls = [] then
                                (Abrupt (Returned (or_default (content assistant) [])), w2)
                              else
                                for_calls P self generateObject a calls
                                  (notify (onToolCall self) calls w2))))))"

text \<open>\<^verbatim>\<open>while (true)\<close> has no bound: the loop runs on fuel, and \<open>None\<close> is the answer
  of a run that has not returned when the fuel is spent.\<close>

fun chat_loop ::
  "(Tool list \<Rightarrow> descriptor list field) \<Rightarrow> nat \<Rightarrow> 's platform \<Rightarrow> OpenAI \<Rightarrow> bool \<Rightarrow> 's world
     \<Rightarrow> string completion option \<times> 's world"
where
  "chat_loop toolsJson 0 P self generateObject w = (None, w)"
| "chat_loop toolsJson (Suc n) P self generateObject w =
     (case chat_round toolsJson P self generateObject w of
        (Normal, w') \<Rightarrow> chat_loop toolsJson n P self generateObject w'
      | (Abrupt c, w') \<Rightarrow> (Some c, w'))"

definition user_message :: "string \<Rightarrow> ChatMessage" where
  "user_message s = \<lparr>role = R_user, content = Some s, tool_calls = None, tool_call_id = None\<rparr>"

definition system_message :: "string \<Rightarrow> ChatMessage" where
  "system_message s = \<lparr>role = R_system, content = Some s, tool_calls = None, tool_call_id = None\<rparr>"

definition chat ::
  "(Tool list \<Rightarrow> descriptor list field) \<Rightarrow> nat \<Rightarrow> 's platform \<Rightarrow> OpenAI \<Rightarrow> string option \<Rightarrow> bool
     \<Rightarrow> 's world \<Rightarrow> string completion option \<times> 's world"
where
  "chat toolsJson fuel P self msg generateObject w =
     (if truthy msg then
        (case messages self of
           None \<Rightarrow> (Some (Threw TypeError), w)
         | Some a \<Rightarrow>
             chat_loop toolsJson fuel P self generateObject
               (push a (user_message (nullish_default msg [])) w))
      else chat_loop toolsJson fuel P self generateObject w)"

record GenerateTextOptions =
  gt_openai :: "OpenAI option"
  gt_messages :: addr
  gt_tools :: "Tool list option"
  gt_onToolCall :: "callback option"

text \<open>\<^verbatim>\<open>generateText\<close> of the class revision: the client it sets up
  (\<^verbatim>\<open>options.openai || createOpenAI()\<close>, then the assignments to \<^verbatim>\<open>openai.messages\<close>
  and \<^verbatim>\<open>openai.tools\<close>), and the call \<^verbatim>\<open>openai.chat()\<close>. The option
  \<^verbatim>\<open>onToolCall\<close> is declared in \<^verbatim>\<open>GenerateTextOptions\<close>; the function reads
  \<^verbatim>\<open>openai\<close>, \<^verbatim>\<open>messages\<close> and \<^verbatim>\<open>tools\<close> only.\<close>

definition generateText_client :: "'s platform \<Rightarrow> GenerateTextOptions \<Rightarrow> OpenAI" where
  "generateText_client P options =
     (let openai = (case gt_openai options of
                      Some c \<Rightarrow> c
                    | None \<Rightarrow> createOpenAI (process_env P) no_options);
          openai = openai\<lparr>messages := Some (gt_messages options)\<rparr>;
          openai = openai\<lparr>tools := (case gt_tools options of Some ts \<Rightarrow> ts | None \<Rightarrow> [])\<rparr>
      in openai)"

definition generateText ::
  "(Tool list \<Rightarrow> descriptor list field) \<Rightarrow> nat \<Rightarrow> 's platform \<Rightarrow> GenerateTextOptions \<Rightarrow> 's world
     \<Rightarrow> string completion option \<times> 's world"
where
  "generateText toolsJson fuel P options w =
     chat toolsJson fuel P (generateText_client P options) None False w"

record GenerateObjectOptions =
  go_openai :: "OpenAI option"
  go_messages :: addr
  go_schema :: schema

definition submit_preamble :: string where
  "submit_preamble = ''You are a structured output assistant. Understand what the user wants, and then respond by calling the tool `submit_object` once, with the parameter being the JSON data that the user wants.''"

text \<open>\<^verbatim>\<open>generateObject\<close> of the class revision (\<^verbatim>\<open>src/fastai.ts\<close>), in its four
  steps: the client it sets up (\<^verbatim>\<open>options.openai || createOpenAI()\<close>, the assignments
  to \<^verbatim>\<open>openai.messages\<close> and \<^verbatim>\<open>openai.tools\<close>), the system message it pushes
  onto \<^verbatim>\<open>options.messages\<close> when the array holds none, the call
  \<^verbatim>\<open>openai.chat(undefined, true)\<close>, and what it makes of the string that comes back.\<close>

definition submit_object :: "schema \<Rightarrow> Tool" where
  "submit_object sch =
     createTool
       \<lparr>name = ''submit_object'',
        description = Some ''Submit the final structured object that matches the required schema.'',
        parameters = sch,
        execute = (\<lambda>args. Promise ''Object submitted.'')\<rparr>"

definition generateObject_client :: "'s platform \<Rightarrow> GenerateObjectOptions \<Rightarrow> OpenAI" where
  "generateObject_client P options =
     (let openai = (case go_openai options of
                      Some c \<Rightarrow> c
                    | None \<Rightarrow> createOpenAI (process_env P) no_options);
          openai = openai\<lparr>messages := Some (go_messages options)\<rparr>;
          openai = openai\<lparr>tools := [submit_object (go_schema options)]\<rparr>
      in openai)"

definition ensure_system :: "addr \<Rightarrow> 's world \<Rightarrow> 's world" where
  "ensure_system a w =
     (if find (\<lambda>m. role m = R_system) (arrays w a) = None
      then push a (system_message submit_preamble) w
      else w)"

definition generated_object :: "'s platform \<Rightarrow> schema \<Rightarrow> string \<Rightarrow> json completion" where
  "generated_object P sch res =
     (if res \<noteq> [] then
        (case JSON_parse P res of
           None \<Rightarrow> Threw (Error (''Failed to parse generated object: '' @ syntax_error_text P res))
         | Some obj \<Rightarrow>
             (case zod_parse sch obj of
                None \<Rightarrow> Threw (Error (''Failed to parse generated object: '' @ zod_error_text P obj))
              | Some parsed \<Rightarrow> Returned parsed))
      else
        Threw (Error ''Model did not return a structured object. Ensure the model supports tool calling.''))"

definition generateObject ::
  "(Tool list \<Rightarrow> descriptor list field) \<Rightarrow> nat \<Rightarrow> 's platform \<Rightarrow> GenerateObjectOptions \<Rightarrow> 's world
     \<Rightarrow> json completion option \<times> 's world"
where
  "generateObject toolsJson fuel P options w =
     (case chat toolsJson fuel P (generateObject_client P options) None True
             (ensure_system (go_messages options) w) of
        (None, w2) \<Rightarrow> (None, w2)
      | (Some (Threw e), w2) \<Rightarrow> (Some (Threw e), w2)
      | (Some (Returned res), w2) \<Rightarrow> (Some (generated_object P (go_schema options) res), w2))"

subsection \<open>The bundled revision: generateText and generateObject\<close>

text \<open>\<^verbatim>\<open>options.tools\<close>: an array of tools, or an object keyed by name (as
  \<^verbatim>\<open>Object.entries\<close> lists it).\<close>

datatype tools_input = ToolArray "Tool list" | ToolRecord "(string \<times> Tool) list"

text \<open>\<^verbatim>\<open>'client' in options\<close>: a client with a model name, or a \<^verbatim>\<open>ChatModelRef\<close>.\<close>

datatype transport = ByClient OpenAIClient string | ByModel ChatModelRef

record GenerateTextOptions_bundle =
  gtb_transport :: transport
  gtb_messages :: addr
  gtb_tools :: "tools_input option"
  gtb_onToolCall :: "callback option"

text \<open>The \<^verbatim>\<open>Map\<close> of tools: \<^verbatim>\<open>set\<close> replaces the value of a key in place and
  appends a new key; \<^verbatim>\<open>values()\<close> lists in that order.\<close>

definition toolMap_of :: "tools_input option \<Rightarrow> (string \<times> Tool) list" where
  "toolMap_of toolsInput =
     (case toolsInput of
        None \<Rightarrow> []
      | Some (ToolArray ts) \<Rightarrow> fold (\<lambda>t m. AList.update (name t) t m) ts []
      | Some (ToolRecord entries) \<Rightarrow> fold (\<lambda>(n, t) m. AList.update n t m) entries [])"

definition toolsJsonSchema_of :: "(string \<times> Tool) list \<Rightarrow> descriptor list field" where
  "toolsJsonSchema_of toolMap =
     (if length toolMap \<noteq> 0 then Value (map descriptor_of (map snd toolMap)) else Undefined)"

text \<open>The constants of \<^verbatim>\<open>generateText\<close>'s scope that its loop reads.\<close>

record scope_bundle =
  sc_endpoint :: string
  sc_apiKey :: string
  sc_modelName :: string
  sc_toolsJsonSchema :: "descriptor list field"
  sc_toolMap :: "(string \<times> Tool) list"
  sc_onToolCall :: "callback option"
  sc_messageHistory :: addr

text \<open>The result \<^verbatim>\<open>{text: assistant.content}\<close>: the content as the message has it.\<close>

record text_result =
  result_text :: "string option"

text \<open>\<^verbatim>\<open>if (onToolCall) { const toolNames = tool_calls.map(c => c.function.name);
  toolNames.forEach(name => onToolCall(name)) }\<close>.\<close>

definition notify_bundle :: "callback option \<Rightarrow> ToolCall list \<Rightarrow> 's world \<Rightarrow> 's world" where
  "notify_bundle cb calls w =
     (case cb of
        None \<Rightarrow> w
      | Some f \<Rightarrow> fold (\<lambda>n. emit (OnToolCall f n)) (map fn_name calls) w)"

fun for_calls_bundle ::
  "'s platform \<Rightarrow> scope_bundle \<Rightarrow> ToolCall list \<Rightarrow> 's world \<Rightarrow> text_result flow \<times> 's world"
where
  "for_calls_bundle P sc [] w = (Normal, w)"
| "for_calls_bundle P sc (call # rest) w =
     (let w1 = emit (Lookup (fn_name call)) w in
      case map_of (sc_toolMap sc) (fn_name call) of
        None \<Rightarrow> (Abrupt (Threw (Error (''Tool '' @ fn_name call @ '' not found''))), w1)
      | Some tool \<Rightarrow>
          (case JSON_parse P (fn_arguments call) of
             None \<Rightarrow> (Abrupt (Threw SyntaxError), w1)
           | Some parsed \<Rightarrow>
               (case zod_parse (parameters tool) parsed of
                  None \<Rightarrow> (Abrupt (Threw ZodError), w1)
                | Some args \<Rightarrow>
                    (let result = await (execute tool args);
                         w2 = emit (Execute (name tool) args) w1;
                         w3 = push (sc_messageHistory sc) (tool_message result call) w2
                     in for_calls_bundle P sc rest w3))))"

definition request_bundle :: "scope_bundle \<Rightarrow> 's world \<Rightarrow> request" where
  "request_bundle sc w =
     \<lparr>url = sc_endpoint sc,
      authorization = ''Bearer '' @ sc_apiKey sc,
      body = \<lparr>b_model = sc_modelName sc,
              b_messages = Value (arrays w (sc_messageHistory sc)),
              b_tools = sc_toolsJsonSchema sc,
              b_stream = Undefined\<rparr>\<rparr>"

text \<open>One turn of \<^verbatim>\<open>while (true)\<close> in the bundled \<^verbatim>\<open>generateText\<close>.\<close>

definition round_bundle ::
  "'s platform \<Rightarrow> scope_bundle \<Rightarrow> 's world \<Rightarrow> text_result flow \<times> 's world"
where
  "round_bundle P sc w =
     (case post P (request_bundle sc w) w of
        (Inl e, w1) \<Rightarrow> (Abrupt (Threw e), w1)
      | (Inr r, w1) \<Rightarrow>
          (case json_body r of
             None \<Rightarrow> (Abrupt (Threw SyntaxError), w1)
           | Some res \<Rightarrow>
               (case first_message res of
                  None \<Rightarrow> (Abrupt (Threw (Error ''No message returned'')), w1)
                | Some assistant \<Rightarrow>
                    (let w2 = push (sc_messageHistory sc) assistant w1 in
                     case tool_calls assistant of
                       None \<Rightarrow> (Abrupt (Returned \<lparr>result_text = content assistant\<rparr>), w2)
                     | Some calls \<Rightarrow>
                         if calls = [] then
                           (Abrupt (Returned \<lparr>result_text = content assistant\<rparr>), w2)
                         else
                           for_calls_bundle P sc calls
                             (notify_bundle (sc_onToolCall sc) calls w2)))))"

fun loop_bundle ::
  "nat \<Rightarrow> 's platform \<Rightarrow> scope_bundle \<Rightarrow> 's world \<Rightarrow> text_result completion option \<times> 's world"
where
  "loop_bundle 0 P sc w = (None, w)"
| "loop_bundle (Suc n) P sc w =
     (case round_bundle P sc w of
        (Normal, w') \<Rightarrow> loop_bundle n P sc w'
      | (Abrupt c, w') \<Rightarrow> (Some c, w'))"

definition scope_of :: "GenerateTextOptions_bundle \<Rightarrow> addr \<Rightarrow> scope_bundle" where
  "scope_of options messageHistory =
     (let toolMap = toolMap_of (gtb_tools options);
          toolsJsonSchema = toolsJsonSchema_of toolMap;
          baseURL = strip_trailing_slash
            (case gtb_transport options of
               ByClient client m \<Rightarrow> client_baseURL client
             | ByModel ref \<Rightarrow> strip_chat_completions (ref_endpoint ref));
          endpoint = baseURL @ ''/chat/completions'';
          apiKey = (case gtb_transport options of
                      ByClient client m \<Rightarrow> client_apiKey client
                    | ByModel ref \<Rightarrow> ref_apiKey ref);
          modelName = (case gtb_transport options of
                         ByClient client m \<Rightarrow> m
                       | ByModel ref \<Rightarrow> ref_model ref)
      in \<lparr>sc_endpoint = endpoint, sc_apiKey = apiKey, sc_modelName = modelName,
          sc_toolsJsonSchema = toolsJsonSchema, sc_toolMap = toolMap,
          sc_onToolCall = gtb_onToolCall options, sc_messageHistory = messageHistory\<rparr>)"

text \<open>The bundled \<^verbatim>\<open>generateText\<close>; \<^verbatim>\<open>const messageHistory = [...messages]\<close> is a
  new array.\<close>

definition generateText_bundle ::
  "nat \<Rightarrow> 's platform \<Rightarrow> GenerateTextOptions_bundle \<Rightarrow> 's world
     \<Rightarrow> text_result completion option \<times> 's world"
where
  "generateText_bundle fuel P options w =
     (case alloc (arrays w (gtb_messages options)) w of
        (messageHistory, w0) \<Rightarrow> loop_bundle fuel P (scope_of options messageHistory) w0)"

record GenerateObjectOptions_bundle =
  gob_transport :: transport
  gob_schema :: schema
  gob_prompt :: string
  gob_system :: "string option"

definition systemPreamble_default :: string where
  "systemPreamble_default = ''You are a structured-output assistant. Always respond by calling the tool `submit_object` exactly once with the final JSON object. Do not include any other text.''"

text \<open>\<^verbatim>\<open>s.replace(/\/(?:chat\/completions)?$/, '')\<close>.\<close>

definition strip_endpoint :: "string \<Rightarrow> string" where
  "strip_endpoint s =
     (if suffix ''/chat/completions'' s then take (length s - length ''/chat/completions'') s
      else strip_trailing_slash s)"

definition submit_descriptor :: "schema \<Rightarrow> descriptor" where
  "submit_descriptor sch =
     \<lparr>d_type = ''function'',
      d_name = ''submit_object'',
      d_description = Some ''Submit the final structured object that matches the required schema.'',
      d_parameters = zodToJsonSchema sch\<rparr>"

definition request_object_bundle :: "GenerateObjectOptions_bundle \<Rightarrow> request" where
  "request_object_bundle options =
     (let baseURL = strip_trailing_slash
            (case gob_transport options of
               ByClient client m \<Rightarrow> client_baseURL client
             | ByModel ref \<Rightarrow> strip_endpoint (ref_endpoint ref));
          endpoint = baseURL @ ''/chat/completions'';
          apiKey = (case gob_transport options of
                      ByClient client m \<Rightarrow> client_apiKey client
                    | ByModel ref \<Rightarrow> ref_apiKey ref);
          modelName = (case gob_transport options of
                         ByClient client m \<Rightarrow> m
                       | ByModel ref \<Rightarrow> ref_model ref);
          systemPreamble = nullish_default (gob_system options) systemPreamble_default;
          messages = [system_message systemPreamble, user_message (gob_prompt options)];
          tools = [submit_descriptor (gob_schema options)]
      in \<lparr>url = endpoint,
          authorization = ''Bearer '' @ apiKey,
          body = \<lparr>b_model = modelName, b_messages = Value messages,
                  b_tools = Value tools, b_stream = Undefined\<rparr>\<rparr>)"

text \<open>The result \<^verbatim>\<open>{object: validated}\<close>.\<close>

record object_result =
  result_object :: json

text \<open>The bundled \<^verbatim>\<open>generateObject\<close>: one request, no loop.\<close>

definition generateObject_bundle ::
  "'s platform \<Rightarrow> GenerateObjectOptions_bundle \<Rightarrow> 's world
     \<Rightarrow> object_result completion \<times> 's world"
where
  "generateObject_bundle P options w =
     (case post P (request_object_bundle options) w of
        (Inl e, w1) \<Rightarrow> (Threw e, w1)
      | (Inr r, w1) \<Rightarrow>
          (case json_body r of
             None \<Rightarrow> (Threw SyntaxError, w1)
           | Some res \<Rightarrow>
               (case first_message res of
                  None \<Rightarrow> (Threw (Error ''No message returned''), w1)
                | Some assistant \<Rightarrow>
                    (let toolCalls = (case tool_calls assistant of None \<Rightarrow> [] | Some cs \<Rightarrow> cs) in
                     case find (\<lambda>c. fn_name c = ''submit_object'') toolCalls of
                       Some submitCall \<Rightarrow>
                         (let rawArgs = or_default (Some (fn_arguments submitCall)) ''{}'' in
                          case JSON_parse P rawArgs of
                            None \<Rightarrow> (Threw SyntaxError, w1)
                          | Some parsed \<Rightarrow>
                              (case zod_parse (gob_schema options) parsed of
                                 None \<Rightarrow> (Threw ZodError, w1)
                               | Some validated \<Rightarrow> (Returned \<lparr>result_object = validated\<rparr>, w1)))
                     | None \<Rightarrow>
                         (let fallback =
                                (if truthy (content assistant) then
                                   (case JSON_parse P (nullish_default (content assistant) []) of
                                      None \<Rightarrow> None
                                    | Some v \<Rightarrow> zod_parse (gob_schema options) v)
                                 else None)
                          in case fallback of
                               Some validated \<Rightarrow> (Returned \<lparr>result_object = validated\<rparr>, w1)
                             | None \<Rightarrow>
                                 (Threw (Error ''Model did not return a structured object. Ensure the model supports tool calling.''), w1))))))"

subsection \<open>OpenAI.stream (part_004)\<close>

text \<open>
  Reading a parsed JSON value. \<open>get_property v k\<close> is \<^verbatim>\<open>v[k]\<close> for a value that is
  neither \<^verbatim>\<open>null\<close> nor \<^verbatim>\<open>undefined\<close> and a key among \<^verbatim>\<open>choices\<close>,
  \<^verbatim>\<open>delta\<close>, \<^verbatim>\<open>content\<close>, which only an object can hold; \<open>None\<close> is
  \<^verbatim>\<open>undefined\<close>. \<open>first_element v\<close> is \<^verbatim>\<open>v[0]\<close>.
\<close>

fun get_property :: "json \<Rightarrow> string \<Rightarrow> json option" where
  "get_property (JObj kvs) k = map_of kvs k"
| "get_property v k = None"

fun first_element :: "json \<Rightarrow> json option" where
  "first_element (JArr xs) = (case xs of [] \<Rightarrow> None | x # _ \<Rightarrow> Some x)"
| "first_element (JStr s) = (case s of [] \<Rightarrow> None | c # _ \<Rightarrow> Some (JStr [c]))"
| "first_element (JObj kvs) = map_of kvs ''0''"
| "first_element v = None"

text \<open>\<^verbatim>\<open>v?.x\<close>: \<^verbatim>\<open>undefined\<close> when \<^verbatim>\<open>v\<close> is \<^verbatim>\<open>null\<close> or \<^verbatim>\<open>undefined\<close>.\<close>

definition optional_chain :: "json option \<Rightarrow> (json \<Rightarrow> json option) \<Rightarrow> json option" where
  "optional_chain v f =
     (case v of None \<Rightarrow> None | Some x \<Rightarrow> if x = JNull then None else f x)"

fun json_truthy :: "json \<Rightarrow> bool" where
  "json_truthy JNull = False"
| "json_truthy (JBool b) = b"
| "json_truthy (JNum n) = (n \<noteq> 0)"
| "json_truthy (JStr s) = (s \<noteq> [])"
| "json_truthy (JArr xs) = True"
| "json_truthy (JObj kvs) = True"

text \<open>\<^verbatim>\<open>data.choices?.[0]?.delta\<close>; reading \<^verbatim>\<open>choices\<close> of \<^verbatim>\<open>null\<close> throws.\<close>

definition delta_of :: "json \<Rightarrow> error + json option" where
  "delta_of data =
     (if data = JNull then Inl TypeError
      else Inr (optional_chain (optional_chain (get_property data ''choices'') first_element)
                  (\<lambda>c. get_property c ''delta'')))"

text \<open>The value passed to \<^verbatim>\<open>onMsg\<close> for a parsed fragment, if any:
  \<^verbatim>\<open>if (delta && delta.content) onMsg(delta.content, false)\<close>.\<close>

definition delta_content :: "json \<Rightarrow> json option" where
  "delta_content data =
     (case delta_of data of
        Inl e \<Rightarrow> None
      | Inr None \<Rightarrow> None
      | Inr (Some delta) \<Rightarrow>
          if json_truthy delta then
            (case get_property delta ''content'' of
               None \<Rightarrow> None
             | Some c \<Rightarrow> if json_truthy c then Some c else None)
          else None)"

text \<open>\<^verbatim>\<open>buffer.split('\n')\<close>: the pieces between the line feeds, at least one piece.\<close>

fun split_nl :: "string \<Rightarrow> string list" where
  "split_nl [] = [[]]"
| "split_nl (c # cs) =
     (if c = CHR 0x0A then [] # split_nl cs
      else (case split_nl cs of
              [] \<Rightarrow> [[c]]
            | l # ls \<Rightarrow> (c # l) # ls))"

text \<open>
  \<^verbatim>\<open>s.trim()\<close>. A \<open>char\<close> is a code unit of the decoded text below 256; among
  these the white space and line terminators that \<^verbatim>\<open>trim\<close> strips are tab, line feed,
  vertical tab, form feed, carriage return, space and the no-break space U+00A0. The
  white space above 255 (U+1680, U+2000 to U+200A, U+2028, U+2029, U+202F, U+205F,
  U+3000, U+FEFF) has no \<open>char\<close>: a text that holds it is outside the model.
\<close>

definition is_space :: "char \<Rightarrow> bool" where
  "is_space c =
     (c = CHR 0x09 \<or> c = CHR 0x0A \<or> c = CHR 0x0B \<or> c = CHR 0x0C \<or> c = CHR 0x0D \<or> c = CHR 0x20
      \<or> c = CHR 0xA0)"

definition trim :: "string \<Rightarrow> string" where
  "trim s = rev (dropWhile is_space (rev (dropWhile is_space s)))"

text \<open>The loop \<^verbatim>\<open>for (const line of lines)\<close>; the flag tells whether it ran into
  \<^verbatim>\<open>return\<close>. A fragment that does not parse is logged and skipped.\<close>

fun for_lines :: "'s platform \<Rightarrow> string list \<Rightarrow> 's world \<Rightarrow> bool \<times> 's world" where
  "for_lines P [] w = (False, w)"
| "for_lines P (line # rest) w =
     (if \<not> prefix ''data: '' line then for_lines P rest w
      else
        (let dataStr = drop 6 line in
         if dataStr = ''[DONE]'' then (True, emit (OnMsg (JStr []) True) w)
         else
           (case JSON_parse P dataStr of
              None \<Rightarrow> for_lines P rest w
            | Some data \<Rightarrow>
                (case delta_content data of
                   None \<Rightarrow> for_lines P rest w
                 | Some c \<Rightarrow> for_lines P rest (emit (OnMsg c False) w)))))"

text \<open>The loop \<^verbatim>\<open>while (true)\<close> of \<^verbatim>\<open>stream\<close>, over the chunks that
  \<^verbatim>\<open>reader.read()\<close> is still to yield, each as the text \<^verbatim>\<open>decoder.decode\<close> makes
  of it; the empty list is the end of the body. The body is finite, so the loop ends.\<close>

fun read_loop :: "'s platform \<Rightarrow> string list \<Rightarrow> string \<Rightarrow> 's world \<Rightarrow> 's world" where
  "read_loop P [] buffer w =
     (if trim buffer \<noteq> [] then emit (OnMsg (JStr (trim buffer)) True) w else w)"
| "read_loop P (chunk # later) buffer w =
     (let buffer1 = buffer @ chunk;
          lines = split_nl buffer1;
          buffer2 = (case lines of [] \<Rightarrow> [] | _ # _ \<Rightarrow> last lines);
          lines = butlast lines
      in case for_lines P lines w of
           (True, w') \<Rightarrow> w'
         | (False, w') \<Rightarrow> read_loop P later buffer2 w')"

fun string_of_nat :: "nat \<Rightarrow> string" where
  "string_of_nat n =
     (if n < 10 then [''0123456789'' ! n]
      else string_of_nat (n div 10) @ [''0123456789'' ! (n mod 10)])"

definition stream_request :: "OpenAI \<Rightarrow> 's world \<Rightarrow> request" where
  "stream_request self w =
     \<lparr>url = endpoint self,
      authorization = ''Bearer '' @ apiKey self,
      body = \<lparr>b_model = model self,
              b_messages = (case messages self of None \<Rightarrow> Undefined | Some a \<Rightarrow> Value (arrays w a)),
              b_tools = generateToolsJsonSchema_p4 (tools self),
              b_stream = Value True\<rparr>\<rparr>"

text \<open>\<^verbatim>\<open>stream(prompt, onMsg)\<close>; \<^verbatim>\<open>finally { reader.releaseLock() }\<close> closes the
  reading on every path.\<close>

definition stream :: "'s platform \<Rightarrow> OpenAI \<Rightarrow> string \<Rightarrow> 's world \<Rightarrow> unit completion \<times> 's world" where
  "stream P self prompt w =
     (case messages self of
        None \<Rightarrow> (Threw TypeError, w)
      | Some a \<Rightarrow>
          (let w0 = push a (user_message prompt) w in
           case post P (stream_request self w0) w0 of
             (Inl e, w1) \<Rightarrow> (Threw e, w1)
           | (Inr response, w1) \<Rightarrow>
               if \<not> ok response then
                 (Threw (Error (''HTTP error! status: '' @ string_of_nat (status response))), w1)
               else
                 (case stream_body response of
                    None \<Rightarrow> (Threw (Error ''Response body is null''), w1)
                  | Some chunks \<Rightarrow>
                      (Returned (), emit ReleaseLock (read_loop P chunks [] w1)))))"

subsection \<open>Notions for stating the properties\<close>

text \<open>The requests of a trace, in the order they were sent.\<close>

definition requests :: "event list \<Rightarrow> request list" where
  "requests t = concat (map (\<lambda>e. case e of Fetch r \<Rightarrow> [r] | _ \<Rightarrow> []) t)"

text \<open>The events of the loop over the tool calls: a lookup in the registry, a tool run.\<close>

fun is_tool_event :: "event \<Rightarrow> bool" where
  "is_tool_event (Lookup n) = True"
| "is_tool_event (Execute n args) = True"
| "is_tool_event e = False"

text \<open>The registry of each revision: \<^verbatim>\<open>this.tools?.find(t => t.name === n)\<close> and
  \<^verbatim>\<open>toolMap.get(n)\<close>.\<close>

definition registry :: "OpenAI \<Rightarrow> string \<Rightarrow> Tool option" where
  "registry self n = find (\<lambda>t. name t = n) (tools self)"

definition registry_bundle :: "scope_bundle \<Rightarrow> string \<Rightarrow> Tool option" where
  "registry_bundle sc n = map_of (sc_toolMap sc) n"

text \<open>A call resolves with valid arguments when its tool is in the registry and its
  arguments parse as JSON and pass the tool's schema; \<open>validated\<close> gives the tool and the
  validated arguments.\<close>

definition validated ::
  "'s platform \<Rightarrow> (string \<Rightarrow> Tool option) \<Rightarrow> ToolCall \<Rightarrow> (Tool \<times> json) option" where
  "validated P reg call =
     (case reg (fn_name call) of
        None \<Rightarrow> None
      | Some tool \<Rightarrow>
          (case JSON_parse P (fn_arguments call) of
             None \<Rightarrow> None
           | Some parsed \<Rightarrow>
               (case zod_parse (parameters tool) parsed of
                  None \<Rightarrow> None
                | Some args \<Rightarrow> Some (tool, args))))"

text \<open>What a call that resolves with valid arguments leaves behind: the events of its
  lookup and run, and the tool message with the result.\<close>

definition call_events :: "'s platform \<Rightarrow> (string \<Rightarrow> Tool option) \<Rightarrow> ToolCall \<Rightarrow> event list" where
  "call_events P reg call =
     (case validated P reg call of
        None \<Rightarrow> [Lookup (fn_name call)]
      | Some (tool, args) \<Rightarrow> [Lookup (fn_name call), Execute (name tool) args])"

definition call_result :: "'s platform \<Rightarrow> (string \<Rightarrow> Tool option) \<Rightarrow> ToolCall \<Rightarrow> ChatMessage list" where
  "call_result P reg call =
     (case validated P reg call of
        None \<Rightarrow> []
      | Some (tool, args) \<Rightarrow> [tool_message (await (execute tool args)) call])"

subsection \<open>Concrete inputs\<close>

text \<open>A store with the caller's array at reference \<open>0\<close>, a server that has seen no
  request, and an empty trace.\<close>

definition world0 :: "ChatMessage list \<Rightarrow> nat world" where
  "world0 ms = \<lparr>arrays = (\<lambda>a. if a = 0 then ms else []), next_free = 1, server = 0, trace = []\<rparr>"

definition test_client :: OpenAI where
  "test_client =
     (createOpenAI (\<lambda>_. None)
        \<lparr>opt_baseURL = Some ''https://api.openai.com/v1'', opt_apiKey = Some ''test-key'',
         opt_model = Some ''gpt-4''\<rparr>)
     \<lparr>messages := Some 0\<rparr>"

text \<open>The fragment \<^verbatim>\<open>{"choices":[{"delta":{"content":"Hi"}}]}\<close> and its parse.\<close>

definition hi_fragment :: string where
  "hi_fragment = ''{\"choices\":[{\"delta\":{\"content\":\"Hi\"}}]}''"

definition hi_data :: json where
  "hi_data = JObj [(''choices'', JArr [JObj [(''delta'', JObj [(''content'', JStr ''Hi'')])]])]"

text \<open>A server that streams the fragment and the sentinel in four chunks cut inside the
  lines, with one more frame after the sentinel.\<close>

definition hi_chunks :: "string list" where
  "hi_chunks =
     [''data: {\"choices\":[{\"del'',
      ''ta\":{\"content\":\"Hi\"}}]}'' @ [CHR 0x0A],
      [CHR 0x0A] @ ''data: [DO'',
      ''NE]'' @ [CHR 0x0A, CHR 0x0A] @ ''data: {\"late\":1}'' @ [CHR 0x0A, CHR 0x0A]]"

definition hi_platform :: "nat platform" where
  "hi_platform =
     \<lparr>fetch = (\<lambda>s req.
        (Inr \<lparr>ok = True, status = 200, json_body = None, stream_body = Some hi_chunks\<rparr>, Suc s)),
      JSON_parse = (\<lambda>s. if s = hi_fragment then Some hi_data else None),
      process_env = (\<lambda>_. None),
      syntax_error_text = (\<lambda>s. ''SyntaxError: Unexpected token''),
      zod_error_text = (\<lambda>v. ''ZodError: Invalid input'')\<rparr>"

text \<open>A \<^verbatim>\<open>JSON.parse\<close> for the concrete runs: it reads a JSON string without escapes, and
  nothing else.\<close>

definition parse_string_literal :: "string \<Rightarrow> json option" where
  "parse_string_literal s =
     (if 2 \<le> length s \<and> hd s = CHR 0x22 \<and> last s = CHR 0x22 \<and> CHR 0x22 \<notin> set (butlast (tl s))
      then Some (JStr (butlast (tl s))) else None)"

text \<open>The tool \<^verbatim>\<open>echo\<close>: its schema admits a string, its \<^verbatim>\<open>execute\<close> resolves to it.\<close>

definition string_schema :: schema where
  "string_schema =
     \<lparr>zod_parse = (\<lambda>v. case v of JStr s \<Rightarrow> Some (JStr s) | _ \<Rightarrow> None),
      zodToJsonSchema = JObj [(''type'', JStr ''string'')]\<rparr>"

definition echo_tool :: Tool where
  "echo_tool =
     \<lparr>name = ''echo'', description = Some ''Echo the text'', parameters = string_schema,
      execute = (\<lambda>v. case v of JStr s \<Rightarrow> Promise s | _ \<Rightarrow> Promise [])\<rparr>"

definition tool_call :: "string \<Rightarrow> string \<Rightarrow> string \<Rightarrow> ToolCall" where
  "tool_call i n args =
     \<lparr>tc_index = 0, tc_id = i, tc_type = ''function'', fn_name = n, fn_arguments = args\<rparr>"


definition assistant_message :: "string \<Rightarrow> ToolCall list option \<Rightarrow> ChatMessage" where
  "assistant_message s calls =
     \<lparr>role = R_assistant, content = Some s, tool_calls = calls, tool_call_id = None\<rparr>"

text \<open>A server that answers the \<open>n\<close>-th request with the \<open>n\<close>-th message of a script, and
  rejects the requests after the last.\<close>

definition scripted :: "ChatMessage list \<Rightarrow> nat platform" where
  "scripted script =
     \<lparr>fetch = (\<lambda>s req.
        (if s < length script
         then Inr \<lparr>ok = True, status = 200,
                   json_body = Some \<lparr>choices = Some [\<lparr>message = Some (script ! s)\<rparr>]\<rparr>,
                   stream_body = None\<rparr>
         else Inl NetworkError, Suc s)),
      JSON_parse = parse_string_literal,
      process_env = (\<lambda>_. None),
      syntax_error_text = (\<lambda>s. ''SyntaxError: Unexpected token''),
      zod_error_text = (\<lambda>v. ''ZodError: Invalid input'')\<rparr>"

text \<open>A batch of two calls: \<^verbatim>\<open>echo("hello")\<close>, then a tool that is not registered.\<close>

definition echo_then_missing :: "ToolCall list" where
  "echo_then_missing =
     [tool_call ''call_1'' ''echo'' ''\"hello\"'', tool_call ''call_2'' ''missing'' ''\"x\"'']"

definition observer :: callback where
  "observer = Callback ''observer''"

definition test_scope :: scope_bundle where
  "test_scope =
     \<lparr>sc_endpoint = ''https://api.openai.com/v1/chat/completions'', sc_apiKey = ''test-key'',
      sc_modelName = ''gpt-4'',
      sc_toolsJsonSchema = toolsJsonSchema_of [(''echo'', echo_tool)],
      sc_toolMap = [(''echo'', echo_tool)],
      sc_onToolCall = Some observer, sc_messageHistory = 0\<rparr>"

text \<open>A batch of two calls: \<^verbatim>\<open>echo\<close> with arguments that are not JSON, then a tool
  that is not registered.\<close>

definition broken_then_missing :: "ToolCall list" where
  "broken_then_missing =
     [tool_call ''call_1'' ''echo'' ''{'', tool_call ''call_2'' ''missing'' ''\"x\"'']"

text \<open>Options of the two revisions of \<^verbatim>\<open>generateText\<close> for the caller's array at
  reference \<open>0\<close>, with the tool \<^verbatim>\<open>echo\<close> and an observer.\<close>

definition test_options :: "Tool list option \<Rightarrow> GenerateTextOptions" where
  "test_options ts =
     \<lparr>gt_openai = Some test_client, gt_messages = 0, gt_tools = ts,
      gt_onToolCall = Some observer\<rparr>"

definition test_model :: ChatModelRef where
  "test_model =
     builder \<lparr>client_baseURL = ''https://api.openai.com/v1'', client_apiKey = ''test-key''\<rparr>
       ''gpt-4''"

definition test_options_bundle :: "tools_input option \<Rightarrow> GenerateTextOptions_bundle" where
  "test_options_bundle ts =
     \<lparr>gtb_transport = ByModel test_model, gtb_messages = 0, gtb_tools = ts,
      gtb_onToolCall = Some observer\<rparr>"

text \<open>A conversation of two turns: the model calls \<^verbatim>\<open>echo("hello")\<close>, then answers.\<close>

definition echo_script :: "ChatMessage list" where
  "echo_script =
     [assistant_message [] (Some [tool_call ''call_1'' ''echo'' ''\"hello\"'']),
      assistant_message ''It says hello'' None]"

text \<open>A conversation for \<^verbatim>\<open>generateObject\<close>: the model submits the string
  \<^verbatim>\<open>"Paris"\<close>.\<close>

definition submit_script :: "ChatMessage list" where
  "submit_script =
     [assistant_message [] (Some [tool_call ''call_1'' ''submit_object'' ''\"Paris\"''])]"

definition three_messages :: "ChatMessage list" where
  "three_messages =
     [user_message ''Name a city'', assistant_message ''Which country?'' None,
      user_message ''France'']"

definition object_options :: GenerateObjectOptions where
  "object_options = \<lparr>go_openai = Some test_client, go_messages = 0, go_schema = string_schema\<rparr>"

definition object_options_bundle :: "string option \<Rightarrow> GenerateObjectOptions_bundle" where
  "object_options_bundle sys =
     \<lparr>gob_transport = ByModel test_model, gob_schema = string_schema,
      gob_prompt = ''Name a city in France'', gob_system = sys\<rparr>"

section \<open>Client construction and tool creation\<close>

lemma createOpenAI_apiKey:
  "apiKey (createOpenAI env options) =
     or_default (or_else (opt_apiKey options) (env ''OPENAI_API_KEY'')) []"
  by (simp add: createOpenAI_def Let_def set_baseURL_def new_OpenAI_def)

text \<open>
  C7, as stated: without an API key in the options or the environment, construction
  fails. \<^verbatim>\<open>createOpenAI\<close> of \<^verbatim>\<open>src/fastai.ts\<close> does not: called with no option
  in an empty environment it returns a client whose key is the empty string.
\<close>

theorem C7_counterexample:
  "apiKey (createOpenAI (\<lambda>_. None) no_options) = []"
  by (simp add: createOpenAI_apiKey no_options_def or_default_def or_else_def truthy_def)

text \<open>
  C7, amended. The bundled \<^verbatim>\<open>createOpenAI\<close> requires \<^verbatim>\<open>options.apiKey\<close> (it reads no
  environment): with the key absent or empty it fails at once with the error
  \<^verbatim>\<open>apiKey is required\<close>, and a client it returns holds the key it was given, which
  is not empty. \<^verbatim>\<open>createOpenAI\<close> of \<^verbatim>\<open>src/fastai.ts\<close> never fails: its key is
  \<^verbatim>\<open>options.apiKey\<close>, or else \<^verbatim>\<open>OPENAI_API_KEY\<close> of the environment, or else the
  empty string.
\<close>

theorem C7_createOpenAI_apiKey:
  "(createOpenAI_bundle bo = Inl (Error ''apiKey is required'')) = (\<not> truthy (bopt_apiKey bo))
   \<and> (\<forall>client. createOpenAI_bundle bo = Inr client \<longrightarrow>
          bopt_apiKey bo = Some (client_apiKey client) \<and> client_apiKey client \<noteq> [])
   \<and> apiKey (createOpenAI env options) =
        (if truthy (opt_apiKey options) then the (opt_apiKey options)
         else if truthy (env ''OPENAI_API_KEY'') then the (env ''OPENAI_API_KEY'')
         else [])"
  by (auto simp: createOpenAI_bundle_def createOpenAI_apiKey Let_def truthy_def
      or_default_def or_else_def nullish_default_def split: option.splits)

theorem C7_createOpenAI_apiKey_witness:
  "createOpenAI_bundle \<lparr>bopt_baseURL = None, bopt_apiKey = None\<rparr>
     = Inl (Error ''apiKey is required'')
   \<and> createOpenAI_bundle \<lparr>bopt_baseURL = None, bopt_apiKey = Some ''k''\<rparr>
     = Inr \<lparr>client_baseURL = ''https://api-inference.modelscope.cn/v1'', client_apiKey = ''k''\<rparr>
   \<and> apiKey (createOpenAI (\<lambda>_. None)
        \<lparr>opt_baseURL = None, opt_apiKey = Some ''k'', opt_model = None\<rparr>) = ''k''
   \<and> apiKey (createOpenAI (\<lambda>v. if v = ''OPENAI_API_KEY'' then Some ''e'' else None) no_options)
     = ''e''"
proof -
  have b: "createOpenAI_bundle \<lparr>bopt_baseURL = None, bopt_apiKey = Some ''k''\<rparr>
     = Inr \<lparr>client_baseURL = ''https://api-inference.modelscope.cn/v1'', client_apiKey = ''k''\<rparr>"
    by (simp add: createOpenAI_bundle_def Let_def truthy_def nullish_default_def
        strip_trailing_slash_def)
  show ?thesis
    using C7_createOpenAI_apiKey [of "\<lparr>bopt_baseURL = None, bopt_apiKey = None\<rparr>"
        "\<lambda>_. None" "\<lparr>opt_baseURL = None, opt_apiKey = Some ''k'', opt_model = None\<rparr>"]
      C7_createOpenAI_apiKey [of "\<lparr>bopt_baseURL = None, bopt_apiKey = Some ''k''\<rparr>"
        "\<lambda>v. if v = ''OPENAI_API_KEY'' then Some ''e'' else None" no_options]
      b
    by (simp add: truthy_def no_options_def)
qed

text \<open>
  C8, as stated: the tool that \<^verbatim>\<open>createTool\<close> returns always answers with a promise.
  \<^verbatim>\<open>createTool\<close> of \<^verbatim>\<open>src/fastai.ts\<close> returns its argument: given an
  \<^verbatim>\<open>execute\<close> that returns a plain string, the tool's \<^verbatim>\<open>execute\<close> returns that plain
  string.
\<close>

theorem C8_counterexample:
  "execute (createTool
      \<lparr>name = ''t'', description = None,
       parameters = \<lparr>zod_parse = Some, zodToJsonSchema = JNull\<rparr>,
       execute = (\<lambda>_. Plain ''done'')\<rparr>) JNull = Plain ''done''"
  by (simp add: createTool_def)

text \<open>
  C8, amended. The bundled \<^verbatim>\<open>createTool\<close> keeps name, description and schema and wraps
  \<^verbatim>\<open>execute\<close>: the tool's \<^verbatim>\<open>execute\<close> always returns a promise, resolving to the
  string that the supplied \<^verbatim>\<open>execute\<close> returns or resolves to. \<^verbatim>\<open>createTool\<close> of
  \<^verbatim>\<open>src/fastai.ts\<close>, whose type admits only an \<^verbatim>\<open>execute\<close> that returns a promise,
  returns its argument unchanged: the tool's \<^verbatim>\<open>execute\<close> returns what the supplied
  one returns.
\<close>

theorem C8_createTool_execute:
  "execute (createTool_bundle options) args = Promise (await (execute options args))
   \<and> name (createTool_bundle options) = name options
   \<and> description (createTool_bundle options) = description options
   \<and> parameters (createTool_bundle options) = parameters options
   \<and> createTool options = options"
  by (cases "execute options args") (simp_all add: createTool_bundle_def wrappedExecute_def createTool_def)
section \<open>Streaming\<close>

subsection \<open>Lines of a chunked text\<close>

lemma split_nl_not_Nil: "split_nl s \<noteq> []"
  by (induction s) (auto split: list.splits)

lemma split_nl_plain: "CHR 0x0A \<notin> set l \<Longrightarrow> split_nl l = [l]"
  by (induction l) auto

lemma split_nl_line:
  "CHR 0x0A \<notin> set l \<Longrightarrow> split_nl (l @ CHR 0x0A # y) = l # split_nl y"
proof (induction l)
  case Nil
  show ?case by simp
next
  case (Cons c l)
  then show ?case by auto
qed

lemma split_nl_no_nl: "l \<in> set (split_nl s) \<Longrightarrow> CHR 0x0A \<notin> set l"
proof (induction s arbitrary: l)
  case Nil
  then show ?case by simp
next
  case (Cons c s)
  obtain h t where ht: "split_nl s = h # t"
    using split_nl_not_Nil [of s] by (cases "split_nl s") auto
  show ?case
  proof (cases "c = CHR 0x0A")
    case True
    with Cons show ?thesis by auto
  next
    case False
    with Cons.prems ht have "l = c # h \<or> l \<in> set t" by auto
    then show ?thesis
    proof
      assume "l = c # h"
      moreover have "CHR 0x0A \<notin> set h" using Cons.IH [of h] ht by simp
      ultimately show ?thesis using False by auto
    next
      assume "l \<in> set t"
      then show ?thesis using Cons.IH [of l] ht by simp
    qed
  qed
qed

lemma split_nl_append:
  "split_nl (a @ b) = butlast (split_nl a) @ split_nl (last (split_nl a) @ b)"
proof (induction a)
  case Nil
  show ?case by simp
next
  case (Cons c a)
  obtain h t where ht: "split_nl a = h # t"
    using split_nl_not_Nil [of a] by (cases "split_nl a") auto
  obtain h' t' where ht': "split_nl (a @ b) = h' # t'"
    using split_nl_not_Nil [of "a @ b"] by (cases "split_nl (a @ b)") auto
  show ?case
  proof (cases "c = CHR 0x0A")
    case True
    then show ?thesis using Cons.IH ht by simp
  next
    case False
    show ?thesis
    proof (cases t)
      case Nil
      then have "split_nl (a @ b) = split_nl (h @ b)" using Cons.IH ht by simp
      moreover obtain g u where "split_nl (h @ b) = g # u"
        using split_nl_not_Nil [of "h @ b"] by (cases "split_nl (h @ b)") auto
      ultimately show ?thesis using False ht Nil by simp
    next
      case (Cons x xs)
      then show ?thesis using False ht Cons.IH by simp
    qed
  qed
qed

lemma for_lines_append:
  "for_lines P (xs @ ys) w =
     (case for_lines P xs w of (True, w') \<Rightarrow> (True, w') | (False, w') \<Rightarrow> for_lines P ys w')"
  by (induction xs arbitrary: w) (auto simp: Let_def split: option.splits)

lemma read_loop_lines:
  "CHR 0x0A \<notin> set buffer \<Longrightarrow>
   for_lines P (butlast (split_nl (buffer @ concat chunks))) w = (True, w') \<Longrightarrow>
   read_loop P chunks buffer w = w'"
proof (induction chunks arbitrary: buffer w)
  case Nil
  then show ?case by (simp add: split_nl_plain)
next
  case (Cons chunk later)
  let ?lines = "split_nl (buffer @ chunk)"
  have ne: "?lines \<noteq> []" by (rule split_nl_not_Nil)
  have last_in: "last ?lines \<in> set ?lines" using ne by simp
  have no_nl: "CHR 0x0A \<notin> set (last ?lines)" using split_nl_no_nl [OF last_in] .
  have whole: "butlast (split_nl (buffer @ concat (chunk # later))) =
      butlast ?lines @ butlast (split_nl (last ?lines @ concat later))"
    using split_nl_append [of "buffer @ chunk" "concat later"]
      split_nl_not_Nil [of "last ?lines @ concat later"]
    by (simp add: butlast_append)
  obtain stop w1 where first: "for_lines P (butlast ?lines) w = (stop, w1)"
    by (cases "for_lines P (butlast ?lines) w") auto
  have buf2: "(case ?lines of [] \<Rightarrow> [] | _ # _ \<Rightarrow> last ?lines) = last ?lines"
    using ne by (cases ?lines) auto
  show ?case
  proof (cases stop)
    case True
    then have "w1 = w'" using Cons.prems(2) first unfolding whole for_lines_append by simp
    then show ?thesis using first True by (simp add: Let_def)
  next
    case False
    then have "for_lines P (butlast (split_nl (last ?lines @ concat later))) w1 = (True, w')"
      using Cons.prems(2) first unfolding whole for_lines_append by simp
    from Cons.IH [OF no_nl this] show ?thesis using first False buf2 by (simp add: Let_def)
  qed
qed

subsection \<open>A content fragment, then the sentinel\<close>

lemma for_lines_hi_done:
  assumes parse: "JSON_parse P fragment = Some data"
    and hi: "delta_content data = Some c"
    and not_done: "fragment \<noteq> ''[DONE]''"
  shows "for_lines P ((''data: '' @ fragment) # [] # ''data: [DONE]'' # others) w =
     (True, emit (OnMsg (JStr []) True) (emit (OnMsg c False) w))"
  using assms by (simp add: Let_def)

lemma lines_hi_done:
  assumes "CHR 0x0A \<notin> set fragment"
  shows "butlast (split_nl (''data: '' @ fragment @ [CHR 0x0A, CHR 0x0A]
            @ ''data: [DONE]'' @ [CHR 0x0A] @ rest)) =
     (''data: '' @ fragment) # [] # ''data: [DONE]'' # butlast (split_nl rest)"
proof -
  have l1: "CHR 0x0A \<notin> set (''data: '' @ fragment)" using assms by simp
  have l3: "CHR 0x0A \<notin> set ''data: [DONE]''" by simp
  have "split_nl ((''data: '' @ fragment) @ CHR 0x0A # [] @ CHR 0x0A # ''data: [DONE]'' @ CHR 0x0A # rest)
      = (''data: '' @ fragment) # [] # ''data: [DONE]'' # split_nl rest"
    using split_nl_line [OF l1, of "[] @ CHR 0x0A # ''data: [DONE]'' @ CHR 0x0A # rest"]
      split_nl_line [of "[]" "''data: [DONE]'' @ CHR 0x0A # rest"]
      split_nl_line [OF l3, of rest]
    by simp
  then show ?thesis using split_nl_not_Nil [of rest] by simp
qed

text \<open>
  C9. The server answers the streaming request with a body whose text, however it is cut
  into chunks, is a frame \<^verbatim>\<open>data: <fragment>\<close> whose fragment parses to a value with
  the delta content \<^verbatim>\<open>"Hi"\<close>, an empty line, the frame \<^verbatim>\<open>data: [DONE]\<close>, and then
  any further bytes. Then \<^verbatim>\<open>stream\<close> returns, and after the request its effects are
  exactly \<^verbatim>\<open>onMsg("Hi", false)\<close>, \<^verbatim>\<open>onMsg('', true)\<close> and the release of the reader:
  nothing after the sentinel is processed.
\<close>

theorem C9_stream_hi_then_done:
  assumes msgs: "messages self = Some a"
    and answer: "fetch P (server w) (stream_request self (push a (user_message prompt) w))
        = (Inr response, s)"
    and ok: "ok response"
    and body: "stream_body response = Some chunks"
    and frames: "concat chunks = ''data: '' @ fragment @ [CHR 0x0A, CHR 0x0A]
        @ ''data: [DONE]'' @ [CHR 0x0A] @ rest"
    and parse: "JSON_parse P fragment = Some data"
    and hi: "delta_content data = Some (JStr ''Hi'')"
    and one_line: "CHR 0x0A \<notin> set fragment"
    and not_done: "fragment \<noteq> ''[DONE]''"
  shows "fst (stream P self prompt w) = Returned ()
    \<and> trace (snd (stream P self prompt w)) =
        trace w @ [Fetch (stream_request self (push a (user_message prompt) w)),
                   OnMsg (JStr ''Hi'') False, OnMsg (JStr []) True, ReleaseLock]"
proof -
  let ?w0 = "push a (user_message prompt) w"
  let ?w1 = "(emit (Fetch (stream_request self ?w0)) ?w0)\<lparr>server := s\<rparr>"
  have sent: "post P (stream_request self ?w0) ?w0 = (Inr response, ?w1)"
    using answer by (simp add: post_def push_def)
  have "for_lines P (butlast (split_nl ([] @ concat chunks))) ?w1 =
      (True, emit (OnMsg (JStr []) True) (emit (OnMsg (JStr ''Hi'') False) ?w1))"
    unfolding frames append_Nil lines_hi_done [OF one_line]
    by (rule for_lines_hi_done [OF parse hi not_done])
  then have read: "read_loop P chunks [] ?w1 =
      emit (OnMsg (JStr []) True) (emit (OnMsg (JStr ''Hi'') False) ?w1)"
    by (intro read_loop_lines) simp_all
  have run: "stream P self prompt w =
      (Returned (), emit ReleaseLock (read_loop P chunks [] ?w1))"
    using msgs sent ok body by (simp add: stream_def Let_def)
  show ?thesis unfolding run read by (simp add: emit_def push_def)
qed


theorem C9_stream_hi_then_done_witness:
  "fst (stream hi_platform test_client ''Say hi'' (world0 [])) = Returned ()
   \<and> trace (snd (stream hi_platform test_client ''Say hi'' (world0 []))) =
       [Fetch (stream_request test_client (push 0 (user_message ''Say hi'') (world0 []))),
        OnMsg (JStr ''Hi'') False, OnMsg (JStr []) True, ReleaseLock]"
proof -
  have msgs: "messages test_client = Some 0"
    by (simp add: test_client_def)
  have answer: "fetch hi_platform (server (world0 []))
      (stream_request test_client (push 0 (user_message ''Say hi'') (world0 [])))
      = (Inr \<lparr>ok = True, status = 200, json_body = None, stream_body = Some hi_chunks\<rparr>, Suc 0)"
    by (simp add: hi_platform_def world0_def)
  have frames: "concat hi_chunks = ''data: '' @ hi_fragment @ [CHR 0x0A, CHR 0x0A]
      @ ''data: [DONE]'' @ [CHR 0x0A] @ ([CHR 0x0A] @ ''data: {\"late\":1}'' @ [CHR 0x0A, CHR 0x0A])"
    by (simp add: hi_chunks_def hi_fragment_def)
  have parse: "JSON_parse hi_platform hi_fragment = Some hi_data"
    by (simp add: hi_platform_def)
  have hi: "delta_content hi_data = Some (JStr ''Hi'')"
    by (simp add: delta_content_def delta_of_def optional_chain_def hi_data_def)
  have one_line: "CHR 0x0A \<notin> set hi_fragment"
    by (simp add: hi_fragment_def)
  have not_done: "hi_fragment \<noteq> ''[DONE]''"
    by (simp add: hi_fragment_def)
  show ?thesis
    using C9_stream_hi_then_done [OF msgs answer _ _ frames parse hi one_line not_done]
    by (simp add: world0_def)
qed

section \<open>The conversation loop\<close>

subsection \<open>Effects of the loop over the tool calls\<close>

lemma requests_append [simp]: "requests (xs @ ys) = requests xs @ requests ys"
  by (simp add: requests_def)

lemma requests_Nil [simp]: "requests [] = []"
  by (simp add: requests_def)

lemma requests_Fetch [simp]: "requests (Fetch r # t) = r # requests t"
  by (simp add: requests_def)

lemma requests_OnToolCall [simp]: "requests (OnToolCall f n # t) = requests t"
  by (simp add: requests_def)

lemma requests_tool_events: "list_all is_tool_event t \<Longrightarrow> requests t = []"
proof (induction t)
  case Nil
  show ?case by simp
next
  case (Cons e t)
  then show ?case by (cases e) (simp_all add: requests_def)
qed

lemma fold_emit: "fold (\<lambda>x. emit (f x)) xs w = w\<lparr>trace := trace w @ map f xs\<rparr>"
  by (induction xs arbitrary: w) (simp_all add: emit_def)

lemma notify_eq:
  "notify cb calls w =
     w\<lparr>trace := trace w @ (case cb of None \<Rightarrow> []
                             | Some f \<Rightarrow> map (\<lambda>c. OnToolCall f (fn_name c)) calls)\<rparr>"
  by (cases cb) (simp_all add: notify_def fold_emit)

lemma notify_bundle_eq:
  "notify_bundle cb calls w =
     w\<lparr>trace := trace w @ (case cb of None \<Rightarrow> []
                             | Some f \<Rightarrow> map (\<lambda>c. OnToolCall f (fn_name c)) calls)\<rparr>"
  by (cases cb) (simp_all add: notify_bundle_def fold_emit comp_def)

lemma requests_observed [simp]: "requests (map (\<lambda>c. OnToolCall f (fn_name c)) calls) = []"
  by (induction calls) simp_all

lemma world_call_step:
  "push a m (emit e2 (emit e1 w)) =
     w\<lparr>arrays := (arrays w)(a := arrays w a @ [m]), trace := trace w @ [e1, e2]\<rparr>"
  by (simp add: push_def emit_def)

lemma world_merge:
  assumes "W = w\<lparr>arrays := (arrays w)(a := arrays w a @ xs), trace := trace w @ t1\<rparr>"
  shows "W\<lparr>arrays := (arrays W)(a := arrays W a @ ys), trace := trace W @ t2\<rparr> =
     w\<lparr>arrays := (arrays w)(a := arrays w a @ xs @ ys), trace := trace w @ t1 @ t2\<rparr>"
  unfolding assms by (cases w) (simp add: fun_eq_iff)

text \<open>A run of calls that resolve with valid arguments: the loop goes on with the rest,
  having appended their results and left their events, in the order of the calls.\<close>

lemma for_calls_valid_prefix:
  "\<forall>c \<in> set pre. validated P (registry self) c \<noteq> None \<Longrightarrow>
   for_calls P self False a (pre @ rest) w =
     for_calls P self False a rest
       (w\<lparr>arrays := (arrays w)(a := arrays w a @ concat (map (call_result P (registry self)) pre)),
          trace := trace w @ concat (map (call_events P (registry self)) pre)\<rparr>)"
proof (induction pre arbitrary: w)
  case Nil
  show ?case by simp
next
  case (Cons c pre)
  from Cons.prems obtain tool args where v: "validated P (registry self) c = Some (tool, args)"
    by auto
  then obtain parsed where found: "find (\<lambda>t. name t = fn_name c) (tools self) = Some tool"
    and parsed: "JSON_parse P (fn_arguments c) = Some parsed"
    and args: "zod_parse (parameters tool) parsed = Some args"
    by (auto simp: validated_def registry_def split: option.splits)
  let ?w3 = "push a (tool_message (await (execute tool args)) c)
      (emit (Execute (name tool) args) (emit (Lookup (fn_name c)) w))"
  have step: "for_calls P self False a ((c # pre) @ rest) w = for_calls P self False a (pre @ rest) ?w3"
    using found parsed args by (simp add: Let_def)
  have rest_ok: "\<forall>c \<in> set pre. validated P (registry self) c \<noteq> None"
    using Cons.prems by simp
  have cr: "call_result P (registry self) c = [tool_message (await (execute tool args)) c]"
    by (simp add: call_result_def v)
  have ce: "call_events P (registry self) c = [Lookup (fn_name c), Execute (name tool) args]"
    by (simp add: call_events_def v)
  have merged: "?w3\<lparr>arrays := (arrays ?w3)(a := arrays ?w3 (a) @ concat (map (call_result P (registry self)) pre)),
        trace := trace ?w3 @ concat (map (call_events P (registry self)) pre)\<rparr> =
      w\<lparr>arrays := (arrays w)(a := arrays w (a) @ concat (map (call_result P (registry self)) (c # pre))),
        trace := trace w @ concat (map (call_events P (registry self)) (c # pre))\<rparr>"
    using world_merge [OF world_call_step] by (simp add: cr ce)
  show ?case
    unfolding step Cons.IH [OF rest_ok] merged ..
qed

lemma for_calls_bundle_valid_prefix:
  "\<forall>c \<in> set pre. validated P (registry_bundle sc) c \<noteq> None \<Longrightarrow>
   for_calls_bundle P sc (pre @ rest) w =
     for_calls_bundle P sc rest
       (w\<lparr>arrays := (arrays w)(sc_messageHistory sc :=
              arrays w (sc_messageHistory sc) @ concat (map (call_result P (registry_bundle sc)) pre)),
          trace := trace w @ concat (map (call_events P (registry_bundle sc)) pre)\<rparr>)"
proof (induction pre arbitrary: w)
  case Nil
  show ?case by simp
next
  case (Cons c pre)
  from Cons.prems obtain tool args where v: "validated P (registry_bundle sc) c = Some (tool, args)"
    by auto
  then obtain parsed where found: "map_of (sc_toolMap sc) (fn_name c) = Some tool"
    and parsed: "JSON_parse P (fn_arguments c) = Some parsed"
    and args: "zod_parse (parameters tool) parsed = Some args"
    by (auto simp: validated_def registry_bundle_def split: option.splits)
  let ?w3 = "push (sc_messageHistory sc) (tool_message (await (execute tool args)) c)
      (emit (Execute (name tool) args) (emit (Lookup (fn_name c)) w))"
  have step: "for_calls_bundle P sc ((c # pre) @ rest) w = for_calls_bundle P sc (pre @ rest) ?w3"
    using found parsed args by (simp add: Let_def)
  have rest_ok: "\<forall>c \<in> set pre. validated P (registry_bundle sc) c \<noteq> None"
    using Cons.prems by simp
  have cr: "call_result P (registry_bundle sc) c = [tool_message (await (execute tool args)) c]"
    by (simp add: call_result_def v)
  have ce: "call_events P (registry_bundle sc) c = [Lookup (fn_name c), Execute (name tool) args]"
    by (simp add: call_events_def v)
  have merged: "?w3\<lparr>arrays := (arrays ?w3)(sc_messageHistory sc := arrays ?w3 (sc_messageHistory sc) @ concat (map (call_result P (registry_bundle sc)) pre)),
        trace := trace ?w3 @ concat (map (call_events P (registry_bundle sc)) pre)\<rparr> =
      w\<lparr>arrays := (arrays w)(sc_messageHistory sc := arrays w (sc_messageHistory sc) @ concat (map (call_result P (registry_bundle sc)) (c # pre))),
        trace := trace w @ concat (map (call_events P (registry_bundle sc)) (c # pre))\<rparr>"
    using world_merge [OF world_call_step] by (simp add: cr ce)
  show ?case
    unfolding step Cons.IH [OF rest_ok] merged ..
qed

text \<open>Whatever the calls are and however the loop over them ends, it only appends to the
  history and leaves only lookups and tool runs in the trace, the first of them the lookup
  of the first call.\<close>

lemma for_calls_shape:
  "\<exists>added tail. snd (for_calls P self g a calls w) =
       w\<lparr>arrays := (arrays w)(a := arrays w a @ added), trace := trace w @ tail\<rparr>
     \<and> list_all is_tool_event tail
     \<and> (calls \<noteq> [] \<longrightarrow> tail \<noteq> [] \<and> hd tail = Lookup (fn_name (hd calls)))"
proof (induction calls arbitrary: w)
  case Nil
  have "snd (for_calls P self g a [] w) = w\<lparr>arrays := (arrays w)(a := arrays w a @ []), trace := trace w @ []\<rparr>"
    by simp
  then show ?case by (intro exI [of _ "[]"]) simp
next
  case (Cons c calls)
  let ?w1 = "emit (Lookup (fn_name c)) w"
  have w1: "?w1 = w\<lparr>arrays := (arrays w)(a := arrays w a @ []), trace := trace w @ [Lookup (fn_name c)]\<rparr>"
    by (simp add: emit_def)
  have stop: "snd (for_calls P self g a (c # calls) w) = ?w1 \<Longrightarrow> ?case"
    using w1 by (intro exI [of _ "[]"] exI [of _ "[Lookup (fn_name c)]"]) simp
  show ?case
  proof (cases "find (\<lambda>t. name t = fn_name c) (tools self)")
    case None
    then show ?thesis by (intro stop) (simp add: Let_def)
  next
    case (Some tool)
    note found = this
    show ?thesis
    proof (cases g)
      case True
      then show ?thesis using found by (intro stop) (simp add: Let_def)
    next
      case False
      note loop = this
      show ?thesis
      proof (cases "JSON_parse P (fn_arguments c)")
        case None
        then show ?thesis using found loop by (intro stop) (simp add: Let_def)
      next
        case (Some parsed)
        note parsed = this
        show ?thesis
        proof (cases "zod_parse (parameters tool) parsed")
          case None
          then show ?thesis using found loop parsed by (intro stop) (simp add: Let_def)
        next
          case (Some args)
          let ?m = "tool_message (await (execute tool args)) c"
          let ?w3 = "push a ?m (emit (Execute (name tool) args) ?w1)"
          have step: "for_calls P self g a (c # calls) w = for_calls P self g a calls ?w3"
            using loop found parsed Some by (simp add: Let_def)
          from Cons.IH [of ?w3] obtain added tail where
            ih: "snd (for_calls P self g a calls ?w3) =
              ?w3\<lparr>arrays := (arrays ?w3)(a := arrays ?w3 a @ added), trace := trace ?w3 @ tail\<rparr>"
            and tl: "list_all is_tool_event tail"
            by blast
          have eq: "snd (for_calls P self g a (c # calls) w) =
              w\<lparr>arrays := (arrays w)(a := arrays w a @ [?m] @ added),
                trace := trace w @ [Lookup (fn_name c), Execute (name tool) args] @ tail\<rparr>"
            unfolding step ih using world_merge [OF world_call_step] .
          have ev: "list_all is_tool_event ([Lookup (fn_name c), Execute (name tool) args] @ tail)"
            using tl by simp
          have first: "c # calls \<noteq> [] \<longrightarrow>
              [Lookup (fn_name c), Execute (name tool) args] @ tail \<noteq> []
              \<and> hd ([Lookup (fn_name c), Execute (name tool) args] @ tail) = Lookup (fn_name (hd (c # calls)))"
            by simp
          from eq ev first show ?thesis by blast
        qed
      qed
    qed
  qed
qed

lemma for_calls_bundle_shape:
  "\<exists>added tail. snd (for_calls_bundle P sc calls w) =
       w\<lparr>arrays := (arrays w)(sc_messageHistory sc := arrays w (sc_messageHistory sc) @ added),
         trace := trace w @ tail\<rparr>
     \<and> list_all is_tool_event tail
     \<and> (calls \<noteq> [] \<longrightarrow> tail \<noteq> [] \<and> hd tail = Lookup (fn_name (hd calls)))"
proof (induction calls arbitrary: w)
  case Nil
  have "snd (for_calls_bundle P sc [] w) =
      w\<lparr>arrays := (arrays w)(sc_messageHistory sc := arrays w (sc_messageHistory sc) @ []),
        trace := trace w @ []\<rparr>"
    by simp
  then show ?case by (intro exI [of _ "[]"]) simp
next
  case (Cons c calls)
  let ?a = "sc_messageHistory sc"
  let ?w1 = "emit (Lookup (fn_name c)) w"
  have w1: "?w1 = w\<lparr>arrays := (arrays w)(?a := arrays w ?a @ []), trace := trace w @ [Lookup (fn_name c)]\<rparr>"
    by (simp add: emit_def)
  have stop: "snd (for_calls_bundle P sc (c # calls) w) = ?w1 \<Longrightarrow> ?case"
    using w1 by (intro exI [of _ "[]"] exI [of _ "[Lookup (fn_name c)]"]) simp
  show ?case
  proof (cases "map_of (sc_toolMap sc) (fn_name c)")
    case None
    then show ?thesis by (intro stop) (simp add: Let_def)
  next
    case (Some tool)
    note found = this
    show ?thesis
    proof (cases "JSON_parse P (fn_arguments c)")
      case None
      then show ?thesis using found by (intro stop) (simp add: Let_def)
    next
      case (Some parsed)
      note parsed = this
      show ?thesis
      proof (cases "zod_parse (parameters tool) parsed")
        case None
        then show ?thesis using found parsed by (intro stop) (simp add: Let_def)
      next
        case (Some args)
        let ?m = "tool_message (await (execute tool args)) c"
        let ?w3 = "push ?a ?m (emit (Execute (name tool) args) ?w1)"
        have step: "for_calls_bundle P sc (c # calls) w = for_calls_bundle P sc calls ?w3"
          using found parsed Some by (simp add: Let_def)
        from Cons.IH [of ?w3] obtain added tail where
          ih: "snd (for_calls_bundle P sc calls ?w3) =
            ?w3\<lparr>arrays := (arrays ?w3)(?a := arrays ?w3 ?a @ added), trace := trace ?w3 @ tail\<rparr>"
          and tl: "list_all is_tool_event tail"
          by blast
        have eq: "snd (for_calls_bundle P sc (c # calls) w) =
            w\<lparr>arrays := (arrays w)(?a := arrays w ?a @ [?m] @ added),
              trace := trace w @ [Lookup (fn_name c), Execute (name tool) args] @ tail\<rparr>"
          unfolding step ih using world_merge [OF world_call_step] .
        have ev: "list_all is_tool_event ([Lookup (fn_name c), Execute (name tool) args] @ tail)"
          using tl by simp
        have first: "c # calls \<noteq> [] \<longrightarrow>
            [Lookup (fn_name c), Execute (name tool) args] @ tail \<noteq> []
            \<and> hd ([Lookup (fn_name c), Execute (name tool) args] @ tail) = Lookup (fn_name (hd (c # calls)))"
          by simp
        from eq ev first show ?thesis by blast
      qed
    qed
  qed
qed

subsection \<open>One turn of the loop\<close>

lemma post_eq:
  "fetch P (server w) req = (res, s) \<Longrightarrow>
   post P req w = (res, w\<lparr>server := s, trace := trace w @ [Fetch req]\<rparr>)"
  by (simp add: post_def emit_def)

lemma or_default_content [simp]: "or_default (Some s) [] = s"
  by (simp add: or_default_def)


text \<open>A turn whose answer carries tool calls: the assistant's message is appended, the
  observer is told every name, and then the loop over the calls runs.\<close>

lemma chat_round_calls:
  assumes "messages self = Some a"
    and "fetch P (server w) (chat_request toolsJson self w) = (Inr r, s)"
    and "json_body r = Some res"
    and "first_message res = Some assistant"
    and "tool_calls assistant = Some calls"
    and "calls \<noteq> []"
  shows "chat_round toolsJson P self g w =
     for_calls P self g a calls
       (w\<lparr>arrays := (arrays w)(a := arrays w a @ [assistant]),
          server := s,
          trace := trace w @ Fetch (chat_request toolsJson self w)
            # (case onToolCall self of None \<Rightarrow> []
               | Some f \<Rightarrow> map (\<lambda>c. OnToolCall f (fn_name c)) calls)\<rparr>)"
  using assms by (cases w) (simp add: chat_round_def post_eq notify_eq push_def Let_def)

lemma round_bundle_calls:
  assumes "fetch P (server w) (request_bundle sc w) = (Inr r, s)"
    and "json_body r = Some res"
    and "first_message res = Some assistant"
    and "tool_calls assistant = Some calls"
    and "calls \<noteq> []"
  shows "round_bundle P sc w =
     for_calls_bundle P sc calls
       (w\<lparr>arrays := (arrays w)(sc_messageHistory sc := arrays w (sc_messageHistory sc) @ [assistant]),
          server := s,
          trace := trace w @ Fetch (request_bundle sc w)
            # (case sc_onToolCall sc of None \<Rightarrow> []
               | Some f \<Rightarrow> map (\<lambda>c. OnToolCall f (fn_name c)) calls)\<rparr>)"
  using assms by (cases w) (simp add: round_bundle_def post_eq notify_bundle_eq push_def Let_def)

text \<open>A turn whose answer carries no tool call ends the loop with the content.\<close>

lemma chat_round_final:
  assumes "messages self = Some a"
    and "fetch P (server w) (chat_request toolsJson self w) = (Inr r, s)"
    and "json_body r = Some res"
    and "first_message res = Some assistant"
    and "tool_calls assistant = None \<or> tool_calls assistant = Some []"
  shows "chat_round toolsJson P self g w =
     (Abrupt (Returned (or_default (content assistant) [])),
      w\<lparr>arrays := (arrays w)(a := arrays w a @ [assistant]),
        server := s,
        trace := trace w @ [Fetch (chat_request toolsJson self w)]\<rparr>)"
  using assms by (cases w) (auto simp: chat_round_def post_eq push_def Let_def)

lemma round_bundle_final:
  assumes "fetch P (server w) (request_bundle sc w) = (Inr r, s)"
    and "json_body r = Some res"
    and "first_message res = Some assistant"
    and "tool_calls assistant = None \<or> tool_calls assistant = Some []"
  shows "round_bundle P sc w =
     (Abrupt (Returned \<lparr>result_text = content assistant\<rparr>),
      w\<lparr>arrays := (arrays w)(sc_messageHistory sc := arrays w (sc_messageHistory sc) @ [assistant]),
        server := s,
        trace := trace w @ [Fetch (request_bundle sc w)]\<rparr>)"
  using assms by (cases w) (auto simp: round_bundle_def post_eq push_def Let_def)

subsection \<open>Turns of the whole loop\<close>

text \<open>Fuel that is spent without an answer is a number of turns that fell through; the
  loop goes on from the world they reached.\<close>

lemma chat_loop_add:
  "chat_loop toolsJson k P self g w0 = (None, w) \<Longrightarrow>
   chat_loop toolsJson (k + m) P self g w0 = chat_loop toolsJson m P self g w"
proof (induction k arbitrary: w0)
  case 0
  then show ?case by simp
next
  case (Suc k)
  obtain fl w1 where turn: "chat_round toolsJson P self g w0 = (fl, w1)"
    by (cases "chat_round toolsJson P self g w0") auto
  show ?case
  proof (cases fl)
    case Normal
    with Suc.prems turn have "chat_loop toolsJson k P self g w1 = (None, w)" by simp
    from Suc.IH [OF this] show ?thesis using turn Normal by simp
  next
    case (Abrupt c)
    with Suc.prems turn show ?thesis by simp
  qed
qed

lemma loop_bundle_add:
  "loop_bundle k P sc w0 = (None, w) \<Longrightarrow>
   loop_bundle (k + m) P sc w0 = loop_bundle m P sc w"
proof (induction k arbitrary: w0)
  case 0
  then show ?case by simp
next
  case (Suc k)
  obtain fl w1 where turn: "round_bundle P sc w0 = (fl, w1)"
    by (cases "round_bundle P sc w0") auto
  show ?case
  proof (cases fl)
    case Normal
    with Suc.prems turn have "loop_bundle k P sc w1 = (None, w)" by simp
    from Suc.IH [OF this] show ?thesis using turn Normal by simp
  next
    case (Abrupt c)
    with Suc.prems turn show ?thesis by simp
  qed
qed

lemma chat_loop_abrupt:
  "chat_round toolsJson P self g w = (Abrupt c, w') \<Longrightarrow>
   chat_loop toolsJson (Suc n) P self g w = (Some c, w')"
  by simp

lemma loop_bundle_abrupt:
  "round_bundle P sc w = (Abrupt c, w') \<Longrightarrow> loop_bundle (Suc n) P sc w = (Some c, w')"
  by simp

lemma generateText_loop:
  "generateText toolsJson fuel P options w =
     chat_loop toolsJson fuel P (generateText_client P options) False w"
  by (simp add: generateText_def chat_def truthy_def)

lemma generateText_client_fields:
  "messages (generateText_client P options) = Some (gt_messages options)"
  "tools (generateText_client P options) = (case gt_tools options of Some ts \<Rightarrow> ts | None \<Rightarrow> [])"
  by (simp_all add: generateText_client_def Let_def)

lemma generateText_bundle_loop:
  "generateText_bundle fuel P options w =
     loop_bundle fuel P (scope_of options (next_free w))
       (w\<lparr>arrays := (arrays w)(next_free w := arrays w (gtb_messages options)),
          next_free := Suc (next_free w)\<rparr>)"
  by (simp add: generateText_bundle_def alloc_def)

lemma requests_Lookup [simp]: "requests (Lookup n # t) = requests t"
  by (simp add: requests_def)

lemma requests_Execute [simp]: "requests (Execute n args # t) = requests t"
  by (simp add: requests_def)

lemma requests_call_events [simp]: "requests (concat (map (call_events P reg) cs)) = []"
  by (induction cs) (auto simp: call_events_def split: option.splits)

subsection \<open>A tool that is not registered\<close>

lemma for_calls_unknown:
  "registry self (fn_name c) = None \<Longrightarrow>
   for_calls P self g a (c # later) w =
     (Abrupt (Threw (Error (''Tool '' @ fn_name c @ '' not found''))), emit (Lookup (fn_name c)) w)"
  by (simp add: registry_def Let_def)

lemma for_calls_bundle_unknown:
  "registry_bundle sc (fn_name c) = None \<Longrightarrow>
   for_calls_bundle P sc (c # later) w =
     (Abrupt (Threw (Error (''Tool '' @ fn_name c @ '' not found''))), emit (Lookup (fn_name c)) w)"
  by (simp add: registry_bundle_def Let_def)

text \<open>
  C3, as stated: whenever a call of a response names a tool that is not registered, the
  call to \<^verbatim>\<open>generateText\<close> fails with the tool-not-found error. The calls of a batch
  are handled in order and the first failure ends the call: when \<^verbatim>\<open>echo\<close> comes first
  with arguments that are not JSON and the unregistered tool second, \<^verbatim>\<open>generateText\<close>
  fails with the \<^verbatim>\<open>SyntaxError\<close> of \<^verbatim>\<open>JSON.parse\<close>.
\<close>

theorem C3_counterexample:
  "fst (generateText generateToolsJsonSchema 3
         (scripted [assistant_message [] (Some broken_then_missing)])
         \<lparr>gt_openai = Some test_client, gt_messages = 0, gt_tools = Some [echo_tool],
          gt_onToolCall = None\<rparr>
         (world0 [user_message ''hi''])) = Some (Threw SyntaxError)
   \<and> fst (generateText_bundle 3
         (scripted [assistant_message [] (Some broken_then_missing)])
         \<lparr>gtb_transport = ByModel (builder \<lparr>client_baseURL = ''https://api.openai.com/v1'',
              client_apiKey = ''test-key''\<rparr> ''gpt-4''),
          gtb_messages = 0, gtb_tools = Some (ToolArray [echo_tool]), gtb_onToolCall = None\<rparr>
         (world0 [user_message ''hi''])) = Some (Threw SyntaxError)"
  by (simp add: generateText_loop generateText_bundle_loop numeral_3_eq_3
      chat_round_def round_bundle_def generateText_client_def scope_of_def toolMap_of_def
      request_bundle_def notify_bundle_def
      post_def emit_def push_def notify_def scripted_def
      first_message_def world0_def test_client_def broken_then_missing_def tool_call_def
      assistant_message_def echo_tool_def string_schema_def parse_string_literal_def
      Let_def)

text \<open>
  C3, amended. When a call of a response names a tool that is not registered, and every
  call before it in the batch resolves with valid arguments, \<^verbatim>\<open>generateText\<close> fails
  with the error \<^verbatim>\<open>Tool <name> not found\<close> naming that tool, and the request that
  brought the response is the last one sent. This holds for the response of any turn:
  \<open>k\<close> turns have passed without an answer and reached the world \<open>w\<close>.
\<close>

theorem C3_unknown_tool_aborts:
  assumes "json_body r = Some res"
    and "first_message res = Some assistant"
    and "tool_calls assistant = Some (pre @ c # later)"
  shows "(generateText toolsJson k P options w0 = (None, w)
          \<and> fetch P (server w) (chat_request toolsJson (generateText_client P options) w) = (Inr r, s)
          \<and> (\<forall>p \<in> set pre. validated P (registry (generateText_client P options)) p \<noteq> None)
          \<and> registry (generateText_client P options) (fn_name c) = None \<longrightarrow>
          fst (generateText toolsJson (k + Suc n) P options w0)
            = Some (Threw (Error (''Tool '' @ fn_name c @ '' not found'')))
          \<and> requests (trace (snd (generateText toolsJson (k + Suc n) P options w0)))
            = requests (trace w) @ [chat_request toolsJson (generateText_client P options) w])
       \<and> (generateText_bundle k P boptions w0 = (None, w)
          \<and> fetch P (server w) (request_bundle (scope_of boptions (next_free w0)) w) = (Inr r, s)
          \<and> (\<forall>p \<in> set pre. validated P (registry_bundle (scope_of boptions (next_free w0))) p \<noteq> None)
          \<and> registry_bundle (scope_of boptions (next_free w0)) (fn_name c) = None \<longrightarrow>
          fst (generateText_bundle (k + Suc n) P boptions w0)
            = Some (Threw (Error (''Tool '' @ fn_name c @ '' not found'')))
          \<and> requests (trace (snd (generateText_bundle (k + Suc n) P boptions w0)))
            = requests (trace w) @ [request_bundle (scope_of boptions (next_free w0)) w])"
proof (intro conjI impI; elim conjE)
  let ?self = "generateText_client P options"
  let ?a = "gt_messages options"
  assume run: "generateText toolsJson k P options w0 = (None, w)"
    and answer: "fetch P (server w) (chat_request toolsJson ?self w) = (Inr r, s)"
    and valid: "\<forall>p \<in> set pre. validated P (registry ?self) p \<noteq> None"
    and unknown: "registry ?self (fn_name c) = None"
  have msgs: "messages ?self = Some ?a" by (rule generateText_client_fields)
  have ne: "pre @ c # later \<noteq> []" by simp
  obtain w2 where turn: "chat_round toolsJson P ?self False w = for_calls P ?self False ?a (pre @ c # later) w2"
    and t2: "requests (trace w2) = requests (trace w) @ [chat_request toolsJson ?self w]"
    using chat_round_calls [OF msgs answer assms ne, of False]
    by (cases "onToolCall ?self") simp_all
  obtain w3 where w3: "for_calls P ?self False ?a (pre @ c # later) w2 = for_calls P ?self False ?a (c # later) w3"
    and t3: "requests (trace w3) = requests (trace w2)"
    using for_calls_valid_prefix [OF valid, of ?a "c # later" w2] by simp
  have "chat_round toolsJson P ?self False w =
      (Abrupt (Threw (Error (''Tool '' @ fn_name c @ '' not found''))), emit (Lookup (fn_name c)) w3)"
    unfolding turn w3 by (rule for_calls_unknown [OF unknown])
  then have "chat_loop toolsJson (Suc n) P ?self False w =
      (Some (Threw (Error (''Tool '' @ fn_name c @ '' not found''))), emit (Lookup (fn_name c)) w3)"
    by (rule chat_loop_abrupt)
  moreover have "generateText toolsJson (k + Suc n) P options w0 = chat_loop toolsJson (Suc n) P ?self False w"
    using run unfolding generateText_loop by (rule chat_loop_add)
  ultimately have final: "generateText toolsJson (k + Suc n) P options w0 =
      (Some (Threw (Error (''Tool '' @ fn_name c @ '' not found''))), emit (Lookup (fn_name c)) w3)"
    by simp
  show "fst (generateText toolsJson (k + Suc n) P options w0)
      = Some (Threw (Error (''Tool '' @ fn_name c @ '' not found'')))"
    unfolding final by simp
  show "requests (trace (snd (generateText toolsJson (k + Suc n) P options w0)))
      = requests (trace w) @ [chat_request toolsJson ?self w]"
    unfolding final using t2 t3 by (simp add: emit_def requests_def)
next
  let ?sc = "scope_of boptions (next_free w0)"
  assume run: "generateText_bundle k P boptions w0 = (None, w)"
    and answer: "fetch P (server w) (request_bundle ?sc w) = (Inr r, s)"
    and valid: "\<forall>p \<in> set pre. validated P (registry_bundle ?sc) p \<noteq> None"
    and unknown: "registry_bundle ?sc (fn_name c) = None"
  have ne: "pre @ c # later \<noteq> []" by simp
  obtain w2 where turn: "round_bundle P ?sc w = for_calls_bundle P ?sc (pre @ c # later) w2"
    and t2: "requests (trace w2) = requests (trace w) @ [request_bundle ?sc w]"
    using round_bundle_calls [OF answer assms ne]
    by (cases "sc_onToolCall ?sc") simp_all
  obtain w3 where w3: "for_calls_bundle P ?sc (pre @ c # later) w2 = for_calls_bundle P ?sc (c # later) w3"
    and t3: "requests (trace w3) = requests (trace w2)"
    using for_calls_bundle_valid_prefix [OF valid, of "c # later" w2] by simp
  have "round_bundle P ?sc w =
      (Abrupt (Threw (Error (''Tool '' @ fn_name c @ '' not found''))), emit (Lookup (fn_name c)) w3)"
    unfolding turn w3 by (rule for_calls_bundle_unknown [OF unknown])
  then have "loop_bundle (Suc n) P ?sc w =
      (Some (Threw (Error (''Tool '' @ fn_name c @ '' not found''))), emit (Lookup (fn_name c)) w3)"
    by (rule loop_bundle_abrupt)
  moreover have "generateText_bundle (k + Suc n) P boptions w0 = loop_bundle (Suc n) P ?sc w"
    using run unfolding generateText_bundle_loop by (rule loop_bundle_add)
  ultimately have final: "generateText_bundle (k + Suc n) P boptions w0 =
      (Some (Threw (Error (''Tool '' @ fn_name c @ '' not found''))), emit (Lookup (fn_name c)) w3)"
    by simp
  show "fst (generateText_bundle (k + Suc n) P boptions w0)
      = Some (Threw (Error (''Tool '' @ fn_name c @ '' not found'')))"
    unfolding final by simp
  show "requests (trace (snd (generateText_bundle (k + Suc n) P boptions w0)))
      = requests (trace w) @ [request_bundle ?sc w]"
    unfolding final using t2 t3 by (simp add: emit_def requests_def)
qed

theorem C3_unknown_tool_aborts_witness:
  "fst (generateText generateToolsJsonSchema (0 + Suc 0)
          (scripted [assistant_message [] (Some echo_then_missing)])
          (test_options (Some [echo_tool])) (world0 [user_message ''hi'']))
     = Some (Threw (Error ''Tool missing not found''))
   \<and> length (requests (trace (snd (generateText generateToolsJsonSchema (0 + Suc 0)
          (scripted [assistant_message [] (Some echo_then_missing)])
          (test_options (Some [echo_tool])) (world0 [user_message ''hi'']))))) = 1
   \<and> fst (generateText_bundle (0 + Suc 0)
          (scripted [assistant_message [] (Some echo_then_missing)])
          (test_options_bundle (Some (ToolArray [echo_tool]))) (world0 [user_message ''hi'']))
     = Some (Threw (Error ''Tool missing not found''))
   \<and> length (requests (trace (snd (generateText_bundle (0 + Suc 0)
          (scripted [assistant_message [] (Some echo_then_missing)])
          (test_options_bundle (Some (ToolArray [echo_tool]))) (world0 [user_message ''hi'']))))) = 1"
proof -
  let ?m = "assistant_message [] (Some echo_then_missing)"
  let ?P = "scripted [?m]"
  let ?r = "\<lparr>ok = True, status = 200,
      json_body = Some \<lparr>choices = Some [\<lparr>message = Some ?m\<rparr>]\<rparr>, stream_body = None\<rparr>"
  let ?w0 = "world0 [user_message ''hi'']"
  let ?o = "test_options (Some [echo_tool])"
  let ?b = "test_options_bundle (Some (ToolArray [echo_tool]))"
  let ?w1 = "?w0\<lparr>arrays := (arrays ?w0)(next_free ?w0 := arrays ?w0 (gtb_messages ?b)),
      next_free := Suc (next_free ?w0)\<rparr>"
  have h1: "json_body ?r = Some \<lparr>choices = Some [\<lparr>message = Some ?m\<rparr>]\<rparr>"
    by simp
  have h2: "first_message \<lparr>choices = Some [\<lparr>message = Some ?m\<rparr>]\<rparr> = Some ?m"
    by (simp add: first_message_def)
  have h3: "tool_calls ?m =
      Some ([tool_call ''call_1'' ''echo'' ''\"hello\"''] @ tool_call ''call_2'' ''missing'' ''\"x\"'' # [])"
    by (simp add: assistant_message_def echo_then_missing_def)
  have c: "generateText generateToolsJsonSchema 0 ?P ?o ?w0 = (None, ?w0)
      \<and> fetch ?P (server ?w0) (chat_request generateToolsJsonSchema (generateText_client ?P ?o) ?w0)
          = (Inr ?r, Suc 0)
      \<and> (\<forall>p \<in> set [tool_call ''call_1'' ''echo'' ''\"hello\"''].
            validated ?P (registry (generateText_client ?P ?o)) p \<noteq> None)
      \<and> registry (generateText_client ?P ?o) (fn_name (tool_call ''call_2'' ''missing'' ''\"x\"'')) = None"
    by (simp add: generateText_loop scripted_def world0_def validated_def registry_def
        generateText_client_def test_options_def test_client_def tool_call_def echo_tool_def
        string_schema_def parse_string_literal_def Let_def)
  have b: "generateText_bundle 0 ?P ?b ?w0 = (None, ?w1)
      \<and> fetch ?P (server ?w1) (request_bundle (scope_of ?b (next_free ?w0)) ?w1) = (Inr ?r, Suc 0)
      \<and> (\<forall>p \<in> set [tool_call ''call_1'' ''echo'' ''\"hello\"''].
            validated ?P (registry_bundle (scope_of ?b (next_free ?w0))) p \<noteq> None)
      \<and> registry_bundle (scope_of ?b (next_free ?w0))
            (fn_name (tool_call ''call_2'' ''missing'' ''\"x\"'')) = None"
    by (simp add: generateText_bundle_loop scripted_def world0_def validated_def
        registry_bundle_def scope_of_def toolMap_of_def test_options_bundle_def tool_call_def
        echo_tool_def string_schema_def parse_string_literal_def Let_def)
  let ?c = "tool_call ''call_2'' ''missing'' ''\"x\"''"
  have r1: "fst (generateText generateToolsJsonSchema (0 + Suc 0) ?P ?o ?w0)
        = Some (Threw (Error (''Tool '' @ fn_name ?c @ '' not found'')))
      \<and> requests (trace (snd (generateText generateToolsJsonSchema (0 + Suc 0) ?P ?o ?w0)))
        = requests (trace ?w0) @ [chat_request generateToolsJsonSchema (generateText_client ?P ?o) ?w0]"
    using C3_unknown_tool_aborts [OF h1 h2 h3, where toolsJson = generateToolsJsonSchema
        and k = 0 and P = "?P" and options = "?o" and ?w0.0 = "?w0" and w = "?w0"
        and s = "Suc 0" and n = 0] c
    by blast
  have r2: "fst (generateText_bundle (0 + Suc 0) ?P ?b ?w0)
        = Some (Threw (Error (''Tool '' @ fn_name ?c @ '' not found'')))
      \<and> requests (trace (snd (generateText_bundle (0 + Suc 0) ?P ?b ?w0)))
        = requests (trace ?w1) @ [request_bundle (scope_of ?b (next_free ?w0)) ?w1]"
    using C3_unknown_tool_aborts [OF h1 h2 h3, where k = 0 and P = "?P" and boptions = "?b"
        and ?w0.0 = "?w0" and w = "?w1" and s = "Suc 0" and n = 0] b
    by blast
  have t0: "requests (trace ?w0) = []" "requests (trace ?w1) = []"
    by (simp_all add: world0_def)
  show ?thesis
    using r1 r2 unfolding t0 by (simp add: tool_call_def)
qed

subsection \<open>The observer comes first\<close>

text \<open>A turn of the loop of \<^verbatim>\<open>generateText\<close> throws when one of its calls names a tool
  that is not registered: at that call's lookup, or at an earlier call.\<close>

lemma for_calls_throws:
  "c \<in> set calls \<Longrightarrow> registry self (fn_name c) = None \<Longrightarrow>
   \<exists>e. fst (for_calls P self False a calls w) = Abrupt (Threw e)"
proof (induction calls arbitrary: w)
  case Nil
  then show ?case by simp
next
  case (Cons x calls)
  show ?case
  proof (cases "find (\<lambda>t. name t = fn_name x) (tools self)")
    case None
    then show ?thesis by (simp add: Let_def)
  next
    case (Some tool)
    note found = this
    then have "x \<noteq> c" using Cons.prems(2) by (auto simp: registry_def)
    then have later: "c \<in> set calls" using Cons.prems(1) by simp
    show ?thesis
    proof (cases "JSON_parse P (fn_arguments x)")
      case None
      then show ?thesis using found by (simp add: Let_def)
    next
      case (Some parsed)
      note parsed = this
      show ?thesis
      proof (cases "zod_parse (parameters tool) parsed")
        case None
        then show ?thesis using found parsed by (simp add: Let_def)
      next
        case (Some args)
        then show ?thesis
          using found parsed Cons.IH [OF later Cons.prems(2)] by (simp add: Let_def)
      qed
    qed
  qed
qed

lemma for_calls_bundle_throws:
  "c \<in> set calls \<Longrightarrow> registry_bundle sc (fn_name c) = None \<Longrightarrow>
   \<exists>e. fst (for_calls_bundle P sc calls w) = Abrupt (Threw e)"
proof (induction calls arbitrary: w)
  case Nil
  then show ?case by simp
next
  case (Cons x calls)
  show ?case
  proof (cases "map_of (sc_toolMap sc) (fn_name x)")
    case None
    then show ?thesis by (simp add: Let_def)
  next
    case (Some tool)
    note found = this
    then have "x \<noteq> c" using Cons.prems(2) by (auto simp: registry_bundle_def)
    then have later: "c \<in> set calls" using Cons.prems(1) by simp
    show ?thesis
    proof (cases "JSON_parse P (fn_arguments x)")
      case None
      then show ?thesis using found by (simp add: Let_def)
    next
      case (Some parsed)
      note parsed = this
      show ?thesis
      proof (cases "zod_parse (parameters tool) parsed")
        case None
        then show ?thesis using found parsed by (simp add: Let_def)
      next
        case (Some args)
        then show ?thesis
          using found parsed Cons.IH [OF later Cons.prems(2)] by (simp add: Let_def)
      qed
    qed
  qed
qed

text \<open>
  C10, as stated: when a batch holds a call of a tool that is not registered, the
  observer is called with every name and then the loop aborts with the tool-not-found
  error. The observer is called with every name first, but the calls are handled in
  order and the first failure ends the turn: when \<^verbatim>\<open>echo\<close> comes first with arguments
  that are not JSON and the unregistered tool second, the turn of either loop throws the
  \<^verbatim>\<open>SyntaxError\<close> of \<^verbatim>\<open>JSON.parse\<close> at \<^verbatim>\<open>echo\<close>, and the unregistered tool is never
  looked up.
\<close>

theorem C10_counterexample:
  "fst (chat_round generateToolsJsonSchema
          (scripted [assistant_message [] (Some broken_then_missing)])
          (test_client\<lparr>tools := [echo_tool], onToolCall := Some observer\<rparr>) False (world0 []))
     = Abrupt (Threw SyntaxError)
   \<and> trace (snd (chat_round generateToolsJsonSchema
          (scripted [assistant_message [] (Some broken_then_missing)])
          (test_client\<lparr>tools := [echo_tool], onToolCall := Some observer\<rparr>) False (world0 [])))
     = [Fetch (chat_request generateToolsJsonSchema
          (test_client\<lparr>tools := [echo_tool], onToolCall := Some observer\<rparr>) (world0 [])),
        OnToolCall observer ''echo'', OnToolCall observer ''missing'', Lookup ''echo'']
   \<and> fst (round_bundle (scripted [assistant_message [] (Some broken_then_missing)])
          test_scope (world0 []))
     = Abrupt (Threw SyntaxError)
   \<and> trace (snd (round_bundle (scripted [assistant_message [] (Some broken_then_missing)])
          test_scope (world0 [])))
     = [Fetch (request_bundle test_scope (world0 [])),
        OnToolCall observer ''echo'', OnToolCall observer ''missing'', Lookup ''echo'']"
  by code_simp

text \<open>
  C10, amended. In a turn whose answer carries tool calls, the observer of the loop
  (\<^verbatim>\<open>this.onToolCall\<close> in \<^verbatim>\<open>chat\<close>, \<^verbatim>\<open>options.onToolCall\<close> in the bundled
  \<^verbatim>\<open>generateText\<close>) is called with the name of every call of the batch, in the order of
  the batch, right after the request; everything the turn does after that is a lookup
  in the registry or a tool run, beginning with the lookup of the first call, however
  the turn ends. When a call of the batch names a tool that is not registered, the turn
  of \<^verbatim>\<open>generateText\<close>'s loop throws; when moreover every call before it resolves with
  valid arguments, it throws the error \<^verbatim>\<open>Tool <name> not found\<close> naming that tool,
  and its effects are the request, the observer's calls for every name of the batch,
  the lookups and runs of the calls before, and the lookup that fails.
\<close>

theorem C10_observer_before_lookup:
  assumes "json_body r = Some res"
    and "first_message res = Some assistant"
    and "tool_calls assistant = Some calls"
    and "calls \<noteq> []"
  shows "(messages self = Some a \<and> onToolCall self = Some f
          \<and> fetch P (server w) (chat_request toolsJson self w) = (Inr r, s) \<longrightarrow>
          (\<exists>tail. trace (snd (chat_round toolsJson P self g w)) =
               trace w @ Fetch (chat_request toolsJson self w)
                 # map (\<lambda>c. OnToolCall f (fn_name c)) calls @ tail
             \<and> list_all is_tool_event tail
             \<and> tail \<noteq> [] \<and> hd tail = Lookup (fn_name (hd calls)))
          \<and> (\<forall>c \<in> set calls. registry self (fn_name c) = None \<longrightarrow>
                (\<exists>e. fst (chat_round toolsJson P self False w) = Abrupt (Threw e)))
          \<and> (\<forall>pre c later.
                calls = pre @ c # later
                \<and> (\<forall>p \<in> set pre. validated P (registry self) p \<noteq> None)
                \<and> registry self (fn_name c) = None \<longrightarrow>
                fst (chat_round toolsJson P self False w)
                  = Abrupt (Threw (Error (''Tool '' @ fn_name c @ '' not found'')))
                \<and> trace (snd (chat_round toolsJson P self False w)) =
                    trace w @ Fetch (chat_request toolsJson self w)
                      # map (\<lambda>c. OnToolCall f (fn_name c)) calls
                      @ concat (map (call_events P (registry self)) pre)
                      @ [Lookup (fn_name c)]))
       \<and> (sc_onToolCall sc = Some f
          \<and> fetch P (server w) (request_bundle sc w) = (Inr r, s) \<longrightarrow>
          (\<exists>tail. trace (snd (round_bundle P sc w)) =
               trace w @ Fetch (request_bundle sc w)
                 # map (\<lambda>c. OnToolCall f (fn_name c)) calls @ tail
             \<and> list_all is_tool_event tail
             \<and> tail \<noteq> [] \<and> hd tail = Lookup (fn_name (hd calls)))
          \<and> (\<forall>c \<in> set calls. registry_bundle sc (fn_name c) = None \<longrightarrow>
                (\<exists>e. fst (round_bundle P sc w) = Abrupt (Threw e)))
          \<and> (\<forall>pre c later.
                calls = pre @ c # later
                \<and> (\<forall>p \<in> set pre. validated P (registry_bundle sc) p \<noteq> None)
                \<and> registry_bundle sc (fn_name c) = None \<longrightarrow>
                fst (round_bundle P sc w)
                  = Abrupt (Threw (Error (''Tool '' @ fn_name c @ '' not found'')))
                \<and> trace (snd (round_bundle P sc w)) =
                    trace w @ Fetch (request_bundle sc w)
                      # map (\<lambda>c. OnToolCall f (fn_name c)) calls
                      @ concat (map (call_events P (registry_bundle sc)) pre)
                      @ [Lookup (fn_name c)]))"
proof (intro conjI impI; elim conjE)
  assume msgs: "messages self = Some a" and obs: "onToolCall self = Some f"
    and answer: "fetch P (server w) (chat_request toolsJson self w) = (Inr r, s)"
  let ?req = "chat_request toolsJson self w"
  let ?names = "map (\<lambda>c. OnToolCall f (fn_name c)) calls"
  let ?w2 = "w\<lparr>arrays := (arrays w)(a := arrays w a @ [assistant]), server := s,
      trace := trace w @ Fetch ?req # ?names\<rparr>"
  have turn: "\<And>g. chat_round toolsJson P self g w = for_calls P self g a calls ?w2"
    using chat_round_calls [OF msgs answer assms] obs by simp
  from for_calls_shape [of P self g a calls ?w2] obtain added tail where
    shape: "snd (for_calls P self g a calls ?w2) =
        ?w2\<lparr>arrays := (arrays ?w2)(a := arrays ?w2 a @ added), trace := trace ?w2 @ tail\<rparr>"
    and tail: "list_all is_tool_event tail" "tail \<noteq> []" "hd tail = Lookup (fn_name (hd calls))"
    using assms(4) by blast
  have "trace (snd (chat_round toolsJson P self g w)) = trace w @ Fetch ?req # ?names @ tail"
    unfolding turn shape by simp
  with tail show "\<exists>tail. trace (snd (chat_round toolsJson P self g w)) =
        trace w @ Fetch ?req # ?names @ tail
      \<and> list_all is_tool_event tail \<and> tail \<noteq> [] \<and> hd tail = Lookup (fn_name (hd calls))"
    by blast
  show "\<forall>c \<in> set calls. registry self (fn_name c) = None \<longrightarrow>
      (\<exists>e. fst (chat_round toolsJson P self False w) = Abrupt (Threw e))"
    unfolding turn using for_calls_throws by blast
  show "\<forall>pre c later.
      calls = pre @ c # later
      \<and> (\<forall>p \<in> set pre. validated P (registry self) p \<noteq> None)
      \<and> registry self (fn_name c) = None \<longrightarrow>
      fst (chat_round toolsJson P self False w)
        = Abrupt (Threw (Error (''Tool '' @ fn_name c @ '' not found'')))
      \<and> trace (snd (chat_round toolsJson P self False w)) =
          trace w @ Fetch ?req # ?names
            @ concat (map (call_events P (registry self)) pre) @ [Lookup (fn_name c)]"
  proof (intro allI impI; elim conjE)
    fix pre c later
    assume split: "calls = pre @ c # later"
      and valid: "\<forall>p \<in> set pre. validated P (registry self) p \<noteq> None"
      and unknown: "registry self (fn_name c) = None"
    have "chat_round toolsJson P self False w =
        (Abrupt (Threw (Error (''Tool '' @ fn_name c @ '' not found''))),
         emit (Lookup (fn_name c))
           (?w2\<lparr>arrays := (arrays ?w2)(a := arrays ?w2 a
                  @ concat (map (call_result P (registry self)) pre)),
               trace := trace ?w2 @ concat (map (call_events P (registry self)) pre)\<rparr>))"
      unfolding turn split for_calls_valid_prefix [OF valid]
      by (rule for_calls_unknown [OF unknown])
    then show "fst (chat_round toolsJson P self False w)
          = Abrupt (Threw (Error (''Tool '' @ fn_name c @ '' not found'')))
        \<and> trace (snd (chat_round toolsJson P self False w)) =
            trace w @ Fetch ?req # ?names
              @ concat (map (call_events P (registry self)) pre) @ [Lookup (fn_name c)]"
      by (simp add: emit_def)
  qed
next
  assume obs: "sc_onToolCall sc = Some f"
    and answer: "fetch P (server w) (request_bundle sc w) = (Inr r, s)"
  let ?a = "sc_messageHistory sc"
  let ?req = "request_bundle sc w"
  let ?names = "map (\<lambda>c. OnToolCall f (fn_name c)) calls"
  let ?w2 = "w\<lparr>arrays := (arrays w)(?a := arrays w ?a @ [assistant]), server := s,
      trace := trace w @ Fetch ?req # ?names\<rparr>"
  have turn: "round_bundle P sc w = for_calls_bundle P sc calls ?w2"
    using round_bundle_calls [OF answer assms] obs by simp
  from for_calls_bundle_shape [of P sc calls ?w2] obtain added tail where
    shape: "snd (for_calls_bundle P sc calls ?w2) =
        ?w2\<lparr>arrays := (arrays ?w2)(?a := arrays ?w2 ?a @ added), trace := trace ?w2 @ tail\<rparr>"
    and tail: "list_all is_tool_event tail" "tail \<noteq> []" "hd tail = Lookup (fn_name (hd calls))"
    using assms(4) by blast
  have "trace (snd (round_bundle P sc w)) = trace w @ Fetch ?req # ?names @ tail"
    unfolding turn shape by simp
  with tail show "\<exists>tail. trace (snd (round_bundle P sc w)) =
        trace w @ Fetch ?req # ?names @ tail
      \<and> list_all is_tool_event tail \<and> tail \<noteq> [] \<and> hd tail = Lookup (fn_name (hd calls))"
    by blast
  show "\<forall>c \<in> set calls. registry_bundle sc (fn_name c) = None \<longrightarrow>
      (\<exists>e. fst (round_bundle P sc w) = Abrupt (Threw e))"
    unfolding turn using for_calls_bundle_throws by blast
  show "\<forall>pre c later.
      calls = pre @ c # later
      \<and> (\<forall>p \<in> set pre. validated P (registry_bundle sc) p \<noteq> None)
      \<and> registry_bundle sc (fn_name c) = None \<longrightarrow>
      fst (round_bundle P sc w)
        = Abrupt (Threw (Error (''Tool '' @ fn_name c @ '' not found'')))
      \<and> trace (snd (round_bundle P sc w)) =
          trace w @ Fetch ?req # ?names
            @ concat (map (call_events P (registry_bundle sc)) pre) @ [Lookup (fn_name c)]"
  proof (intro allI impI; elim conjE)
    fix pre c later
    assume split: "calls = pre @ c # later"
      and valid: "\<forall>p \<in> set pre. validated P (registry_bundle sc) p \<noteq> None"
      and unknown: "registry_bundle sc (fn_name c) = None"
    have "round_bundle P sc w =
        (Abrupt (Threw (Error (''Tool '' @ fn_name c @ '' not found''))),
         emit (Lookup (fn_name c))
           (?w2\<lparr>arrays := (arrays ?w2)(?a := arrays ?w2 ?a
                  @ concat (map (call_result P (registry_bundle sc)) pre)),
               trace := trace ?w2 @ concat (map (call_events P (registry_bundle sc)) pre)\<rparr>))"
      unfolding turn split for_calls_bundle_valid_prefix [OF valid]
      by (rule for_calls_bundle_unknown [OF unknown])
    then show "fst (round_bundle P sc w)
          = Abrupt (Threw (Error (''Tool '' @ fn_name c @ '' not found'')))
        \<and> trace (snd (round_bundle P sc w)) =
            trace w @ Fetch ?req # ?names
              @ concat (map (call_events P (registry_bundle sc)) pre) @ [Lookup (fn_name c)]"
      by (simp add: emit_def)
  qed
qed

text \<open>The batch \<^verbatim>\<open>echo\<close>, \<^verbatim>\<open>missing\<close>: the observer hears both names, then \<^verbatim>\<open>echo\<close> is
  looked up and run, and the lookup of \<^verbatim>\<open>missing\<close> ends the turn.\<close>

lemma chat_round_echo_then_missing:
  "chat_round generateToolsJsonSchema
      (scripted [assistant_message [] (Some echo_then_missing)])
      (test_client\<lparr>tools := [echo_tool], onToolCall := Some observer\<rparr>) False (world0 [])
   = (Abrupt (Threw (Error ''Tool missing not found'')),
      \<lparr>arrays = (\<lambda>a. if a = 0
          then [assistant_message [] (Some echo_then_missing),
                tool_message ''hello'' (tool_call ''call_1'' ''echo'' ''\"hello\"'')]
          else []),
       next_free = 1, server = 1,
       trace = [Fetch (chat_request generateToolsJsonSchema
                  (test_client\<lparr>tools := [echo_tool], onToolCall := Some observer\<rparr>) (world0 [])),
                OnToolCall observer ''echo'', OnToolCall observer ''missing'',
                Lookup ''echo'', Execute ''echo'' (JStr ''hello''), Lookup ''missing'']\<rparr>)"
  by (simp add: chat_round_def post_def emit_def push_def notify_def scripted_def
      first_message_def world0_def test_client_def echo_then_missing_def tool_call_def
      assistant_message_def echo_tool_def string_schema_def parse_string_literal_def
      observer_def Let_def fun_eq_iff)

theorem C10_observer_before_lookup_witness:
  "fst (chat_round generateToolsJsonSchema
        (scripted [assistant_message [] (Some echo_then_missing)])
        (test_client\<lparr>tools := [echo_tool], onToolCall := Some observer\<rparr>) False (world0 []))
     = Abrupt (Threw (Error ''Tool missing not found''))
   \<and> trace (snd (chat_round generateToolsJsonSchema
        (scripted [assistant_message [] (Some echo_then_missing)])
        (test_client\<lparr>tools := [echo_tool], onToolCall := Some observer\<rparr>) False (world0 [])))
     = [Fetch (chat_request generateToolsJsonSchema
          (test_client\<lparr>tools := [echo_tool], onToolCall := Some observer\<rparr>) (world0 [])),
        OnToolCall observer ''echo'', OnToolCall observer ''missing'',
        Lookup ''echo'', Execute ''echo'' (JStr ''hello''), Lookup ''missing'']
   \<and> fst (round_bundle (scripted [assistant_message [] (Some echo_then_missing)])
        test_scope (world0 []))
     = Abrupt (Threw (Error ''Tool missing not found''))
   \<and> trace (snd (round_bundle (scripted [assistant_message [] (Some echo_then_missing)])
        test_scope (world0 [])))
     = [Fetch (request_bundle test_scope (world0 [])),
        OnToolCall observer ''echo'', OnToolCall observer ''missing'',
        Lookup ''echo'', Execute ''echo'' (JStr ''hello''), Lookup ''missing'']"
proof -
  let ?m = "assistant_message [] (Some echo_then_missing)"
  let ?P = "scripted [?m]"
  let ?self = "test_client\<lparr>tools := [echo_tool], onToolCall := Some observer\<rparr>"
  let ?w = "world0 []"
  let ?r = "\<lparr>ok = True, status = 200,
      json_body = Some \<lparr>choices = Some [\<lparr>message = Some ?m\<rparr>]\<rparr>, stream_body = None\<rparr>"
  let ?e = "tool_call ''call_1'' ''echo'' ''\"hello\"''"
  let ?c = "tool_call ''call_2'' ''missing'' ''\"x\"''"
  have h1: "json_body ?r = Some \<lparr>choices = Some [\<lparr>message = Some ?m\<rparr>]\<rparr>"
    by simp
  have h2: "first_message \<lparr>choices = Some [\<lparr>message = Some ?m\<rparr>]\<rparr> = Some ?m"
    by (simp add: first_message_def)
  have h3: "tool_calls ?m = Some echo_then_missing"
    by (simp add: assistant_message_def)
  have h4: "echo_then_missing \<noteq> []"
    by (simp add: echo_then_missing_def)
  have split: "echo_then_missing = [?e] @ ?c # []"
    by (simp add: echo_then_missing_def)
  have c1: "messages ?self = Some 0 \<and> onToolCall ?self = Some observer
      \<and> fetch ?P (server ?w) (chat_request generateToolsJsonSchema ?self ?w) = (Inr ?r, Suc 0)"
    by (simp add: test_client_def scripted_def world0_def)
  have c2: "sc_onToolCall test_scope = Some observer
      \<and> fetch ?P (server ?w) (request_bundle test_scope ?w) = (Inr ?r, Suc 0)"
    by (simp add: test_scope_def scripted_def world0_def)
  have v1: "validated ?P (registry ?self) ?e = Some (echo_tool, JStr ''hello'')"
    "registry ?self (fn_name ?c) = None"
    by (simp_all add: validated_def registry_def scripted_def tool_call_def echo_tool_def
        string_schema_def parse_string_literal_def)
  have v2: "validated ?P (registry_bundle test_scope) ?e = Some (echo_tool, JStr ''hello'')"
    "registry_bundle test_scope (fn_name ?c) = None"
    by (simp_all add: validated_def registry_bundle_def test_scope_def scripted_def
        tool_call_def echo_tool_def string_schema_def parse_string_literal_def)
  have p1: "\<forall>p \<in> set [?e]. validated ?P (registry ?self) p \<noteq> None" using v1 by simp
  have p2: "\<forall>p \<in> set [?e]. validated ?P (registry_bundle test_scope) p \<noteq> None" using v2 by simp
  note inst = C10_observer_before_lookup [OF h1 h2 h3 h4, where self = "?self" and a = 0
      and f = observer and P = "?P" and w = "?w" and toolsJson = generateToolsJsonSchema
      and s = "Suc 0" and g = False and sc = test_scope]
  have r1: "fst (chat_round generateToolsJsonSchema ?P ?self False ?w)
        = Abrupt (Threw (Error (''Tool '' @ fn_name ?c @ '' not found'')))
      \<and> trace (snd (chat_round generateToolsJsonSchema ?P ?self False ?w)) =
          trace ?w @ Fetch (chat_request generateToolsJsonSchema ?self ?w)
            # map (\<lambda>c. OnToolCall observer (fn_name c)) echo_then_missing
            @ concat (map (call_events ?P (registry ?self)) [?e]) @ [Lookup (fn_name ?c)]"
    using inst c1 split p1 v1(2) by blast
  have r2: "fst (round_bundle ?P test_scope ?w)
        = Abrupt (Threw (Error (''Tool '' @ fn_name ?c @ '' not found'')))
      \<and> trace (snd (round_bundle ?P test_scope ?w)) =
          trace ?w @ Fetch (request_bundle test_scope ?w)
            # map (\<lambda>c. OnToolCall observer (fn_name c)) echo_then_missing
            @ concat (map (call_events ?P (registry_bundle test_scope)) [?e])
            @ [Lookup (fn_name ?c)]"
    using inst c2 split p2 v2(2) by blast
  have ev: "call_events ?P (registry ?self) ?e = [Lookup ''echo'', Execute ''echo'' (JStr ''hello'')]"
    "call_events ?P (registry_bundle test_scope) ?e = [Lookup ''echo'', Execute ''echo'' (JStr ''hello'')]"
    by (simp_all add: call_events_def v1 v2) (simp_all add: tool_call_def echo_tool_def)
  have t0: "trace ?w = []" by (simp add: world0_def)
  have names: "map (\<lambda>c. OnToolCall observer (fn_name c)) echo_then_missing
      = [OnToolCall observer ''echo'', OnToolCall observer ''missing'']"
    by (simp add: echo_then_missing_def tool_call_def)
  have n: "fn_name ?c = ''missing''" by (simp add: tool_call_def)
  show ?thesis
    using r1 r2 by (simp add: ev t0 names n)
qed

subsection \<open>What a turn and a run of the loop change\<close>

lemma world_merge_server:
  assumes "W = w\<lparr>arrays := (arrays w)(a := arrays w a @ xs), server := s, trace := trace w @ ta\<rparr>"
  shows "W\<lparr>arrays := (arrays W)(a := arrays W a @ ys), trace := trace W @ tb\<rparr> =
       w\<lparr>arrays := (arrays w)(a := arrays w a @ xs @ ys), server := s, trace := trace w @ ta @ tb\<rparr>"
    and "W\<lparr>arrays := (arrays W)(a := arrays W a @ ys), server := s', trace := trace W @ tb\<rparr> =
       w\<lparr>arrays := (arrays w)(a := arrays w a @ xs @ ys), server := s', trace := trace w @ ta @ tb\<rparr>"
  unfolding assms by (cases w; simp add: fun_eq_iff)+

lemma world_unchanged:
  "w\<lparr>server := s, trace := trace w @ t\<rparr> =
     w\<lparr>arrays := (arrays w)(a := arrays w a @ []), server := s, trace := trace w @ t\<rparr>"
  by (cases w) (simp add: fun_eq_iff)

text \<open>A turn of \<^verbatim>\<open>chat\<close> sends one request, appends to the array of
  \<^verbatim>\<open>this.messages\<close> and to nothing else, and has appended when it returns a text.\<close>

lemma chat_round_frame:
  assumes msgs: "messages self = Some a"
  shows "\<exists>added evs s. snd (chat_round toolsJson P self g w) =
        w\<lparr>arrays := (arrays w)(a := arrays w a @ added), server := s,
          trace := trace w @ Fetch (chat_request toolsJson self w) # evs\<rparr>
      \<and> requests evs = []
      \<and> (\<forall>t. fst (chat_round toolsJson P self g w) = Abrupt (Returned t) \<longrightarrow> added \<noteq> [])"
proof -
  let ?req = "chat_request toolsJson self w"
  obtain res s where answer: "fetch P (server w) ?req = (res, s)"
    by (cases "fetch P (server w) ?req") auto
  let ?w1 = "w\<lparr>server := s, trace := trace w @ [Fetch ?req]\<rparr>"
  have sent: "post P ?req w = (res, ?w1)" using answer by (rule post_eq)
  have w1: "?w1 = w\<lparr>arrays := (arrays w)(a := arrays w a @ []), server := s,
      trace := trace w @ Fetch ?req # []\<rparr>"
    by (rule world_unchanged)
  let ?goal = ?thesis
  have early: "\<And>e. chat_round toolsJson P self g w = (Abrupt (Threw e), ?w1) \<Longrightarrow> ?goal"
  proof -
    fix e assume "chat_round toolsJson P self g w = (Abrupt (Threw e), ?w1)"
    then have "snd (chat_round toolsJson P self g w) = ?w1"
      and "\<forall>t. fst (chat_round toolsJson P self g w) = Abrupt (Returned t) \<longrightarrow> ([]::ChatMessage list) \<noteq> []"
      by simp_all
    with w1 have "snd (chat_round toolsJson P self g w) =
          w\<lparr>arrays := (arrays w)(a := arrays w a @ []), server := s,
            trace := trace w @ Fetch ?req # []\<rparr>
        \<and> requests [] = []
        \<and> (\<forall>t. fst (chat_round toolsJson P self g w) = Abrupt (Returned t) \<longrightarrow> ([]::ChatMessage list) \<noteq> [])"
      by simp
    then show ?goal by blast
  qed
  show ?thesis
  proof (cases res)
    case (Inl e)
    then show ?thesis using sent by (intro early [of e]) (simp add: chat_round_def)
  next
    case (Inr r)
    note r = this
    show ?thesis
    proof (cases "json_body r")
      case None
      then show ?thesis using sent r by (intro early [of SyntaxError]) (simp add: chat_round_def)
    next
      case (Some body)
      note body = this
      show ?thesis
      proof (cases "first_message body")
        case None
        then show ?thesis using sent r body
          by (intro early [of "Error ''No assistant message returned''"]) (simp add: chat_round_def)
      next
        case (Some assistant)
        note assistant = this
        have answer': "fetch P (server w) ?req = (Inr r, s)" using answer r by simp
        show ?thesis
        proof (cases "tool_calls assistant = None \<or> tool_calls assistant = Some []")
          case True
          have "snd (chat_round toolsJson P self g w) =
                w\<lparr>arrays := (arrays w)(a := arrays w a @ [assistant]), server := s,
                  trace := trace w @ Fetch ?req # []\<rparr>
              \<and> requests [] = []
              \<and> (\<forall>t. fst (chat_round toolsJson P self g w) = Abrupt (Returned t) \<longrightarrow> [assistant] \<noteq> [])"
            unfolding chat_round_final [OF msgs answer' body assistant True] by simp
          then show ?thesis by blast
        next
          case False
          then obtain calls where calls: "tool_calls assistant = Some calls" "calls \<noteq> []"
            by (cases "tool_calls assistant") auto
          let ?obs = "(case onToolCall self of None \<Rightarrow> []
              | Some f \<Rightarrow> map (\<lambda>c. OnToolCall f (fn_name c)) calls)"
          let ?w2 = "w\<lparr>arrays := (arrays w)(a := arrays w a @ [assistant]), server := s,
              trace := trace w @ Fetch ?req # ?obs\<rparr>"
          have turn: "chat_round toolsJson P self g w = for_calls P self g a calls ?w2"
            by (rule chat_round_calls [OF msgs answer' body assistant calls])
          from for_calls_shape [of P self g a calls ?w2] obtain added tail where
            shape: "snd (for_calls P self g a calls ?w2) =
              ?w2\<lparr>arrays := (arrays ?w2)(a := arrays ?w2 a @ added), trace := trace ?w2 @ tail\<rparr>"
            and tail: "list_all is_tool_event tail"
            by blast
          have w2: "?w2 = w\<lparr>arrays := (arrays w)(a := arrays w a @ [assistant]), server := s,
              trace := trace w @ (Fetch ?req # ?obs)\<rparr>"
            by simp
          have obs: "requests ?obs = []" by (cases "onToolCall self") simp_all
          have "snd (chat_round toolsJson P self g w) =
                w\<lparr>arrays := (arrays w)(a := arrays w a @ [assistant] @ added), server := s,
                  trace := trace w @ Fetch ?req # (?obs @ tail)\<rparr>"
            unfolding turn shape using world_merge_server(1) [OF w2, where ys = added and tb = tail] by simp
          moreover have "requests (?obs @ tail) = []"
            using obs requests_tool_events [OF tail] by simp
          moreover have "\<forall>t. fst (chat_round toolsJson P self g w) = Abrupt (Returned t) \<longrightarrow> [assistant] @ added \<noteq> []"
            by simp
          ultimately show ?thesis by blast
        qed
      qed
    qed
  qed
qed

text \<open>The same for a turn of the bundled loop, on the array \<^verbatim>\<open>messageHistory\<close>.\<close>

lemma round_bundle_frame:
  "\<exists>added evs s. snd (round_bundle P sc w) =
        w\<lparr>arrays := (arrays w)(sc_messageHistory sc := arrays w (sc_messageHistory sc) @ added),
          server := s,
          trace := trace w @ Fetch (request_bundle sc w) # evs\<rparr>
      \<and> requests evs = []"
proof -
  let ?a = "sc_messageHistory sc"
  let ?req = "request_bundle sc w"
  obtain res s where answer: "fetch P (server w) ?req = (res, s)"
    by (cases "fetch P (server w) ?req") auto
  let ?w1 = "w\<lparr>server := s, trace := trace w @ [Fetch ?req]\<rparr>"
  have sent: "post P ?req w = (res, ?w1)" using answer by (rule post_eq)
  have w1: "?w1 = w\<lparr>arrays := (arrays w)(?a := arrays w ?a @ []), server := s,
      trace := trace w @ Fetch ?req # []\<rparr>"
    by (rule world_unchanged)
  let ?goal = ?thesis
  have early: "snd (round_bundle P sc w) = ?w1 \<Longrightarrow> ?goal"
  proof -
    assume "snd (round_bundle P sc w) = ?w1"
    with w1 have "snd (round_bundle P sc w) =
          w\<lparr>arrays := (arrays w)(?a := arrays w ?a @ []), server := s,
            trace := trace w @ Fetch ?req # []\<rparr>
        \<and> requests [] = []"
      by simp
    then show ?goal by blast
  qed
  show ?thesis
  proof (cases res)
    case (Inl e)
    then show ?thesis using sent by (intro early) (simp add: round_bundle_def)
  next
    case (Inr r)
    note r = this
    show ?thesis
    proof (cases "json_body r")
      case None
      then show ?thesis using sent r by (intro early) (simp add: round_bundle_def)
    next
      case (Some body)
      note body = this
      show ?thesis
      proof (cases "first_message body")
        case None
        then show ?thesis using sent r body by (intro early) (simp add: round_bundle_def)
      next
        case (Some assistant)
        note assistant = this
        have answer': "fetch P (server w) ?req = (Inr r, s)" using answer r by simp
        show ?thesis
        proof (cases "tool_calls assistant = None \<or> tool_calls assistant = Some []")
          case True
          have "snd (round_bundle P sc w) =
                w\<lparr>arrays := (arrays w)(?a := arrays w ?a @ [assistant]), server := s,
                  trace := trace w @ Fetch ?req # []\<rparr>
              \<and> requests [] = []"
            unfolding round_bundle_final [OF answer' body assistant True] by simp
          then show ?thesis by blast
        next
          case False
          then obtain calls where calls: "tool_calls assistant = Some calls" "calls \<noteq> []"
            by (cases "tool_calls assistant") auto
          let ?obs = "(case sc_onToolCall sc of None \<Rightarrow> []
              | Some f \<Rightarrow> map (\<lambda>c. OnToolCall f (fn_name c)) calls)"
          let ?w2 = "w\<lparr>arrays := (arrays w)(?a := arrays w ?a @ [assistant]), server := s,
              trace := trace w @ Fetch ?req # ?obs\<rparr>"
          have turn: "round_bundle P sc w = for_calls_bundle P sc calls ?w2"
            by (rule round_bundle_calls [OF answer' body assistant calls])
          from for_calls_bundle_shape [of P sc calls ?w2] obtain added tail where
            shape: "snd (for_calls_bundle P sc calls ?w2) =
              ?w2\<lparr>arrays := (arrays ?w2)(?a := arrays ?w2 ?a @ added), trace := trace ?w2 @ tail\<rparr>"
            and tail: "list_all is_tool_event tail"
            by blast
          have w2: "?w2 = w\<lparr>arrays := (arrays w)(?a := arrays w ?a @ [assistant]), server := s,
              trace := trace w @ (Fetch ?req # ?obs)\<rparr>"
            by simp
          have obs: "requests ?obs = []" by (cases "sc_onToolCall sc") simp_all
          have "snd (round_bundle P sc w) =
                w\<lparr>arrays := (arrays w)(?a := arrays w ?a @ [assistant] @ added), server := s,
                  trace := trace w @ Fetch ?req # (?obs @ tail)\<rparr>"
            unfolding turn shape using world_merge_server(1) [OF w2, where ys = added and tb = tail] by simp
          moreover have "requests (?obs @ tail) = []"
            using obs requests_tool_events [OF tail] by simp
          ultimately show ?thesis by blast
        qed
      qed
    qed
  qed
qed

lemma world_same:
  "w = w\<lparr>arrays := (arrays w)(a := arrays w a @ []), server := server w, trace := trace w @ []\<rparr>"
  by (cases w) (simp add: fun_eq_iff)

text \<open>A run of \<^verbatim>\<open>chat\<close>'s loop, whatever its fuel and its end: it appends to the array of
  \<^verbatim>\<open>this.messages\<close> and to nothing else, each of its requests carries the tools as
  \<open>toolsJson\<close> gives them, and it has appended when it returns a text.\<close>

lemma chat_loop_frame:
  assumes msgs: "messages self = Some a"
  shows "\<exists>added evs s. snd (chat_loop toolsJson n P self g w) =
        w\<lparr>arrays := (arrays w)(a := arrays w a @ added), server := s, trace := trace w @ evs\<rparr>
      \<and> (\<forall>r \<in> set (requests evs). b_tools (body r) = toolsJson (tools self))
      \<and> (\<forall>t. fst (chat_loop toolsJson n P self g w) = Some (Returned t) \<longrightarrow> added \<noteq> [])"
proof (induction n arbitrary: w)
  case 0
  have "snd (chat_loop toolsJson 0 P self g w) =
        w\<lparr>arrays := (arrays w)(a := arrays w a @ []), server := server w, trace := trace w @ []\<rparr>
      \<and> (\<forall>r \<in> set (requests []). b_tools (body r) = toolsJson (tools self))
      \<and> (\<forall>t. fst (chat_loop toolsJson 0 P self g w) = Some (Returned t) \<longrightarrow> ([]::ChatMessage list) \<noteq> [])"
    using world_same [of w a] by simp
  then show ?case by blast
next
  case (Suc n)
  let ?req = "chat_request toolsJson self w"
  obtain fl w1 where turn: "chat_round toolsJson P self g w = (fl, w1)"
    by (cases "chat_round toolsJson P self g w") auto
  from chat_round_frame [OF msgs, of toolsJson P g w] turn obtain added1 evs1 s1 where
    w1: "w1 = w\<lparr>arrays := (arrays w)(a := arrays w a @ added1), server := s1,
        trace := trace w @ (Fetch ?req # evs1)\<rparr>"
    and evs1: "requests evs1 = []"
    and ret1: "\<forall>t. fl = Abrupt (Returned t) \<longrightarrow> added1 \<noteq> []"
    by auto
  have req: "b_tools (body ?req) = toolsJson (tools self)"
    by (simp add: chat_request_def)
  show ?case
  proof (cases fl)
    case Normal
    then have step: "chat_loop toolsJson (Suc n) P self g w = chat_loop toolsJson n P self g w1"
      using turn by simp
    from Suc.IH [of w1] obtain added2 evs2 s2 where
      w2: "snd (chat_loop toolsJson n P self g w1) =
          w1\<lparr>arrays := (arrays w1)(a := arrays w1 a @ added2), server := s2, trace := trace w1 @ evs2\<rparr>"
      and evs2: "\<forall>r \<in> set (requests evs2). b_tools (body r) = toolsJson (tools self)"
      and ret2: "\<forall>t. fst (chat_loop toolsJson n P self g w1) = Some (Returned t) \<longrightarrow> added2 \<noteq> []"
      by blast
    have "snd (chat_loop toolsJson (Suc n) P self g w) =
        w\<lparr>arrays := (arrays w)(a := arrays w a @ added1 @ added2), server := s2,
          trace := trace w @ (Fetch ?req # evs1) @ evs2\<rparr>"
      unfolding step w2 by (rule world_merge_server(2) [OF w1])
    moreover have "\<forall>r \<in> set (requests ((Fetch ?req # evs1) @ evs2)). b_tools (body r) = toolsJson (tools self)"
      using evs1 evs2 req by simp
    moreover have "\<forall>t. fst (chat_loop toolsJson (Suc n) P self g w) = Some (Returned t) \<longrightarrow> added1 @ added2 \<noteq> []"
      unfolding step using ret2 by simp
    ultimately show ?thesis by blast
  next
    case (Abrupt c)
    then have step: "chat_loop toolsJson (Suc n) P self g w = (Some c, w1)"
      using turn by simp
    have "snd (chat_loop toolsJson (Suc n) P self g w) =
        w\<lparr>arrays := (arrays w)(a := arrays w a @ added1), server := s1,
          trace := trace w @ (Fetch ?req # evs1)\<rparr>"
      unfolding step using w1 by simp
    moreover have "\<forall>r \<in> set (requests (Fetch ?req # evs1)). b_tools (body r) = toolsJson (tools self)"
      using evs1 req by simp
    moreover have "\<forall>t. fst (chat_loop toolsJson (Suc n) P self g w) = Some (Returned t) \<longrightarrow> added1 \<noteq> []"
      unfolding step using ret1 Abrupt by simp
    ultimately show ?thesis by blast
  qed
qed

lemma loop_bundle_frame:
  "\<exists>added evs s. snd (loop_bundle n P sc w) =
        w\<lparr>arrays := (arrays w)(sc_messageHistory sc := arrays w (sc_messageHistory sc) @ added),
          server := s, trace := trace w @ evs\<rparr>
      \<and> (\<forall>r \<in> set (requests evs). b_tools (body r) = sc_toolsJsonSchema sc)"
proof (induction n arbitrary: w)
  case 0
  have "snd (loop_bundle 0 P sc w) =
        w\<lparr>arrays := (arrays w)(sc_messageHistory sc := arrays w (sc_messageHistory sc) @ []),
          server := server w, trace := trace w @ []\<rparr>
      \<and> (\<forall>r \<in> set (requests []). b_tools (body r) = sc_toolsJsonSchema sc)"
    using world_same [of w "sc_messageHistory sc"] by simp
  then show ?case by blast
next
  case (Suc n)
  let ?a = "sc_messageHistory sc"
  let ?req = "request_bundle sc w"
  obtain fl w1 where turn: "round_bundle P sc w = (fl, w1)"
    by (cases "round_bundle P sc w") auto
  from round_bundle_frame [of P sc w] turn obtain added1 evs1 s1 where
    w1: "w1 = w\<lparr>arrays := (arrays w)(?a := arrays w ?a @ added1), server := s1,
        trace := trace w @ (Fetch ?req # evs1)\<rparr>"
    and evs1: "requests evs1 = []"
    by auto
  have req: "b_tools (body ?req) = sc_toolsJsonSchema sc"
    by (simp add: request_bundle_def)
  show ?case
  proof (cases fl)
    case Normal
    then have step: "loop_bundle (Suc n) P sc w = loop_bundle n P sc w1"
      using turn by simp
    from Suc.IH [of w1] obtain added2 evs2 s2 where
      w2: "snd (loop_bundle n P sc w1) =
          w1\<lparr>arrays := (arrays w1)(?a := arrays w1 ?a @ added2), server := s2, trace := trace w1 @ evs2\<rparr>"
      and evs2: "\<forall>r \<in> set (requests evs2). b_tools (body r) = sc_toolsJsonSchema sc"
      by blast
    have "snd (loop_bundle (Suc n) P sc w) =
        w\<lparr>arrays := (arrays w)(?a := arrays w ?a @ added1 @ added2), server := s2,
          trace := trace w @ (Fetch ?req # evs1) @ evs2\<rparr>"
      unfolding step w2 by (rule world_merge_server(2) [OF w1])
    moreover have "\<forall>r \<in> set (requests ((Fetch ?req # evs1) @ evs2)). b_tools (body r) = sc_toolsJsonSchema sc"
      using evs1 evs2 req by simp
    ultimately show ?thesis by blast
  next
    case (Abrupt c)
    then have step: "loop_bundle (Suc n) P sc w = (Some c, w1)"
      using turn by simp
    have "snd (loop_bundle (Suc n) P sc w) =
        w\<lparr>arrays := (arrays w)(?a := arrays w ?a @ added1), server := s1,
          trace := trace w @ (Fetch ?req # evs1)\<rparr>"
      unfolding step using w1 by simp
    moreover have "\<forall>r \<in> set (requests (Fetch ?req # evs1)). b_tools (body r) = sc_toolsJsonSchema sc"
      using evs1 req by simp
    ultimately show ?thesis by blast
  qed
qed

subsection \<open>An answer without tool calls\<close>




subsection \<open>The caller's array\<close>

text \<open>
  C5, as stated: the caller's array of messages is the same after \<^verbatim>\<open>generateText\<close> as
  before. In the class revision \<^verbatim>\<open>generateText\<close> assigns the caller's array itself to
  \<^verbatim>\<open>openai.messages\<close>, and \<^verbatim>\<open>chat\<close> pushes onto it: after one answer without tool
  calls the caller's array holds the assistant's message too.
\<close>

theorem C5_counterexample:
  "arrays (world0 [user_message ''hi'']) 0 = [user_message ''hi'']
   \<and> arrays (snd (generateText generateToolsJsonSchema 2
        (scripted [assistant_message ''Hello'' None]) (test_options None)
        (world0 [user_message ''hi'']))) 0
     = [user_message ''hi'', assistant_message ''Hello'' None]"
  by (simp add: generateText_loop numeral_2_eq_2 chat_round_def generateText_client_def
      chat_request_def post_def emit_def push_def scripted_def first_message_def world0_def
      test_options_def test_client_def assistant_message_def Let_def)

text \<open>
  C5, amended. The bundled \<^verbatim>\<open>generateText\<close> starts its working history as a new array
  holding the caller's messages, and leaves the caller's array as it was, whether the
  call returns, fails or is still running. \<^verbatim>\<open>generateText\<close> of the class revision
  works on the caller's array itself: after the call the array holds what it held,
  followed by the messages the loop appended, at least one when the call returns a text.
\<close>

theorem C5_caller_messages:
  "(gtb_messages boptions < next_free w \<longrightarrow>
      sc_messageHistory (scope_of boptions (next_free w)) = next_free w
      \<and> arrays (snd (generateText_bundle 0 P boptions w)) (next_free w)
        = arrays w (gtb_messages boptions)
      \<and> arrays (snd (generateText_bundle fuel P boptions w)) (gtb_messages boptions)
        = arrays w (gtb_messages boptions))
   \<and> (\<exists>added.
        arrays (snd (generateText toolsJson fuel P options w)) (gt_messages options)
          = arrays w (gt_messages options) @ added
        \<and> (\<forall>t. fst (generateText toolsJson fuel P options w) = Some (Returned t) \<longrightarrow> added \<noteq> []))"
proof (intro conjI impI)
  show "sc_messageHistory (scope_of boptions (next_free w)) = next_free w"
    by (simp add: scope_of_def Let_def)
  show "arrays (snd (generateText_bundle 0 P boptions w)) (next_free w)
      = arrays w (gtb_messages boptions)"
    by (simp add: generateText_bundle_loop)
next
  assume fresh: "gtb_messages boptions < next_free w"
  let ?sc = "scope_of boptions (next_free w)"
  let ?w0 = "w\<lparr>arrays := (arrays w)(next_free w := arrays w (gtb_messages boptions)),
      next_free := Suc (next_free w)\<rparr>"
  have hist: "sc_messageHistory ?sc = next_free w"
    by (simp add: scope_of_def Let_def)
  from loop_bundle_frame [of fuel P ?sc ?w0] obtain added evs s where
    "snd (loop_bundle fuel P ?sc ?w0) =
      ?w0\<lparr>arrays := (arrays ?w0)(sc_messageHistory ?sc := arrays ?w0 (sc_messageHistory ?sc) @ added),
        server := s, trace := trace ?w0 @ evs\<rparr>"
    by blast
  then show "arrays (snd (generateText_bundle fuel P boptions w)) (gtb_messages boptions)
      = arrays w (gtb_messages boptions)"
    unfolding generateText_bundle_loop hist using fresh by simp
next
  let ?self = "generateText_client P options"
  have msgs: "messages ?self = Some (gt_messages options)" by (rule generateText_client_fields)
  from chat_loop_frame [OF msgs, of toolsJson fuel P False w] obtain added evs s where
    final: "snd (chat_loop toolsJson fuel P ?self False w) =
      w\<lparr>arrays := (arrays w)(gt_messages options := arrays w (gt_messages options) @ added),
        server := s, trace := trace w @ evs\<rparr>"
    and ret: "\<forall>t. fst (chat_loop toolsJson fuel P ?self False w) = Some (Returned t) \<longrightarrow> added \<noteq> []"
    by blast
  have "arrays (snd (generateText toolsJson fuel P options w)) (gt_messages options)
      = arrays w (gt_messages options) @ added"
    unfolding generateText_loop final by simp
  moreover have "\<forall>t. fst (generateText toolsJson fuel P options w) = Some (Returned t) \<longrightarrow> added \<noteq> []"
    unfolding generateText_loop by (rule ret)
  ultimately show "\<exists>added.
      arrays (snd (generateText toolsJson fuel P options w)) (gt_messages options)
        = arrays w (gt_messages options) @ added
      \<and> (\<forall>t. fst (generateText toolsJson fuel P options w) = Some (Returned t) \<longrightarrow> added \<noteq> [])"
    by blast
qed

text \<open>The conversation with one call of \<^verbatim>\<open>echo\<close>, run by the bundle: the text comes
  back after two requests, the second carrying the tool's result; the working history is
  the new array at reference \<open>1\<close>, and the caller's array at reference \<open>0\<close> is as it
  was.\<close>

lemma generateText_bundle_echo:
  "fst (generateText_bundle 2 (scripted echo_script)
      (test_options_bundle (Some (ToolArray [echo_tool]))) (world0 [user_message ''hi'']))
     = Some (Returned \<lparr>result_text = Some ''It says hello''\<rparr>)
   \<and> arrays (snd (generateText_bundle 2 (scripted echo_script)
      (test_options_bundle (Some (ToolArray [echo_tool]))) (world0 [user_message ''hi'']))) 0
     = [user_message ''hi'']
   \<and> arrays (snd (generateText_bundle 2 (scripted echo_script)
      (test_options_bundle (Some (ToolArray [echo_tool]))) (world0 [user_message ''hi'']))) 1
     = [user_message ''hi'',
        assistant_message [] (Some [tool_call ''call_1'' ''echo'' ''\"hello\"'']),
        tool_message ''hello'' (tool_call ''call_1'' ''echo'' ''\"hello\"''),
        assistant_message ''It says hello'' None]
   \<and> trace (snd (generateText_bundle 2 (scripted echo_script)
         (test_options_bundle (Some (ToolArray [echo_tool]))) (world0 [user_message ''hi''])))
     = [Fetch \<lparr>url = ''https://api.openai.com/v1/chat/completions'',
               authorization = ''Bearer test-key'',
               body = \<lparr>b_model = ''gpt-4'', b_messages = Value [user_message ''hi''],
                       b_tools = Value [descriptor_of echo_tool], b_stream = Undefined\<rparr>\<rparr>,
        OnToolCall observer ''echo'', Lookup ''echo'', Execute ''echo'' (JStr ''hello''),
        Fetch \<lparr>url = ''https://api.openai.com/v1/chat/completions'',
               authorization = ''Bearer test-key'',
               body = \<lparr>b_model = ''gpt-4'',
                       b_messages = Value
                         [user_message ''hi'',
                          assistant_message [] (Some [tool_call ''call_1'' ''echo'' ''\"hello\"'']),
                          tool_message ''hello'' (tool_call ''call_1'' ''echo'' ''\"hello\"'')],
                       b_tools = Value [descriptor_of echo_tool], b_stream = Undefined\<rparr>\<rparr>]"
  by code_simp

theorem C5_caller_messages_witness:
  "arrays (snd (generateText_bundle 2 (scripted echo_script)
        (test_options_bundle (Some (ToolArray [echo_tool]))) (world0 [user_message ''hi''])))
      (gtb_messages (test_options_bundle (Some (ToolArray [echo_tool]))))
     = [user_message ''hi'']
   \<and> (\<exists>added. arrays (snd (generateText generateToolsJsonSchema 2 (scripted echo_script)
          (test_options (Some [echo_tool])) (world0 [user_message ''hi''])))
        (gt_messages (test_options (Some [echo_tool])))
       = [user_message ''hi''] @ added \<and> added \<noteq> [])"
proof -
  let ?w = "world0 [user_message ''hi'']"
  let ?b = "test_options_bundle (Some (ToolArray [echo_tool]))"
  let ?o = "test_options (Some [echo_tool])"
  have fresh: "gtb_messages ?b < next_free ?w"
    by (simp add: test_options_bundle_def world0_def)
  have ret: "fst (generateText generateToolsJsonSchema 2 (scripted echo_script) ?o ?w)
      = Some (Returned ''It says hello'')"
    by code_simp
  have before: "arrays ?w (gtb_messages ?b) = [user_message ''hi'']"
    "arrays ?w (gt_messages ?o) = [user_message ''hi'']"
    by (simp_all add: world0_def test_options_bundle_def test_options_def)
  from C5_caller_messages [where boptions = "?b" and w = "?w" and fuel = 2
      and P = "scripted echo_script" and options = "?o" and toolsJson = generateToolsJsonSchema]
    fresh ret
  show ?thesis unfolding before by blast
qed

subsection \<open>The tools field of a request without tools\<close>

text \<open>
  C6, as stated: with no tools the serialised body has no \<^verbatim>\<open>tools\<close> field. In
  \<^verbatim>\<open>part_004\<close>, \<^verbatim>\<open>generateToolsJsonSchema\<close> answers \<^verbatim>\<open>null\<close> for no tools, and
  \<^verbatim>\<open>JSON.stringify\<close> writes a \<^verbatim>\<open>null\<close>: the body of \<^verbatim>\<open>generateText\<close>'s request
  has the field \<^verbatim>\<open>tools\<close>.
\<close>

theorem C6_counterexample:
  "map (\<lambda>r. JSON_stringify_keys (body r))
     (requests (trace (snd (generateText generateToolsJsonSchema_p4 1
        (scripted [assistant_message ''Hello'' None]) (test_options None)
        (world0 [user_message ''hi''])))))
   = [[''model'', ''messages'', ''tools'']]"
  by code_simp

text \<open>In \<^verbatim>\<open>src/fastai.ts\<close> the function has no case for the empty list, which
  \<^verbatim>\<open>part_004\<close> adds: it answers the empty list.\<close>

lemma generateToolsJsonSchema_empty:
  "generateToolsJsonSchema [] = Value []" "generateToolsJsonSchema_p4 [] = Null"
  by (simp_all add: generateToolsJsonSchema_def generateToolsJsonSchema_p4_def)

lemma toolMap_of_empty:
  "ts = None \<or> ts = Some (ToolArray []) \<or> ts = Some (ToolRecord []) \<Longrightarrow> toolMap_of ts = []"
  by (auto simp: toolMap_of_def)

text \<open>
  C6, amended. With no tools supplied (the option absent, an empty array or an empty
  object), every request of the bundled \<^verbatim>\<open>generateText\<close> has \<^verbatim>\<open>tools\<close> undefined,
  and its serialised body has no \<^verbatim>\<open>tools\<close> field. With no tools supplied (the option
  absent or an empty array), every request of \<^verbatim>\<open>generateText\<close> in \<^verbatim>\<open>part_004\<close>
  carries \<^verbatim>\<open>tools: null\<close>: the field is present, and it is not an empty list.
\<close>

theorem C6_tools_field_without_tools:
  "(gtb_tools boptions = None \<or> gtb_tools boptions = Some (ToolArray [])
      \<or> gtb_tools boptions = Some (ToolRecord []) \<longrightarrow>
      (\<exists>evs. trace (snd (generateText_bundle fuel P boptions w)) = trace w @ evs
         \<and> (\<forall>r \<in> set (requests evs).
               b_tools (body r) = Undefined \<and> ''tools'' \<notin> set (JSON_stringify_keys (body r)))))
   \<and> (gt_tools options = None \<or> gt_tools options = Some [] \<longrightarrow>
      (\<exists>evs. trace (snd (generateText generateToolsJsonSchema_p4 fuel P options w)) = trace w @ evs
         \<and> (\<forall>r \<in> set (requests evs).
               b_tools (body r) = Null \<and> ''tools'' \<in> set (JSON_stringify_keys (body r)))))"
proof (intro conjI impI)
  assume none: "gtb_tools boptions = None \<or> gtb_tools boptions = Some (ToolArray [])
      \<or> gtb_tools boptions = Some (ToolRecord [])"
  let ?sc = "scope_of boptions (next_free w)"
  let ?w0 = "w\<lparr>arrays := (arrays w)(next_free w := arrays w (gtb_messages boptions)),
      next_free := Suc (next_free w)\<rparr>"
  have undefined: "sc_toolsJsonSchema ?sc = Undefined"
    using toolMap_of_empty [OF none] by (simp add: scope_of_def toolsJsonSchema_of_def Let_def)
  from loop_bundle_frame [of fuel P ?sc ?w0] obtain added evs s where
    final: "snd (loop_bundle fuel P ?sc ?w0) =
      ?w0\<lparr>arrays := (arrays ?w0)(sc_messageHistory ?sc := arrays ?w0 (sc_messageHistory ?sc) @ added),
        server := s, trace := trace ?w0 @ evs\<rparr>"
    and reqs: "\<forall>r \<in> set (requests evs). b_tools (body r) = sc_toolsJsonSchema ?sc"
    by blast
  have "trace (snd (generateText_bundle fuel P boptions w)) = trace w @ evs"
    unfolding generateText_bundle_loop final by simp
  moreover have "\<forall>r \<in> set (requests evs).
      b_tools (body r) = Undefined \<and> ''tools'' \<notin> set (JSON_stringify_keys (body r))"
    using reqs undefined by (simp add: JSON_stringify_keys_def)
  ultimately show "\<exists>evs. trace (snd (generateText_bundle fuel P boptions w)) = trace w @ evs
      \<and> (\<forall>r \<in> set (requests evs).
            b_tools (body r) = Undefined \<and> ''tools'' \<notin> set (JSON_stringify_keys (body r)))"
    by blast
next
  assume none: "gt_tools options = None \<or> gt_tools options = Some []"
  let ?self = "generateText_client P options"
  have msgs: "messages ?self = Some (gt_messages options)" by (rule generateText_client_fields)
  have null: "generateToolsJsonSchema_p4 (tools ?self) = Null"
    using none by (auto simp: generateText_client_fields generateToolsJsonSchema_p4_def)
  from chat_loop_frame [OF msgs, of generateToolsJsonSchema_p4 fuel P False w] obtain added evs s where
    final: "snd (chat_loop generateToolsJsonSchema_p4 fuel P ?self False w) =
      w\<lparr>arrays := (arrays w)(gt_messages options := arrays w (gt_messages options) @ added),
        server := s, trace := trace w @ evs\<rparr>"
    and reqs: "\<forall>r \<in> set (requests evs). b_tools (body r) = generateToolsJsonSchema_p4 (tools ?self)"
    by blast
  have "trace (snd (generateText generateToolsJsonSchema_p4 fuel P options w)) = trace w @ evs"
    unfolding generateText_loop final by simp
  moreover have "\<forall>r \<in> set (requests evs).
      b_tools (body r) = Null \<and> ''tools'' \<in> set (JSON_stringify_keys (body r))"
    using reqs null by (simp add: JSON_stringify_keys_def)
  ultimately show "\<exists>evs. trace (snd (generateText generateToolsJsonSchema_p4 fuel P options w)) = trace w @ evs
      \<and> (\<forall>r \<in> set (requests evs).
            b_tools (body r) = Null \<and> ''tools'' \<in> set (JSON_stringify_keys (body r)))"
    by blast
qed

text \<open>One request each, with the keys of its serialised body.\<close>

lemma requests_without_tools:
  "map (\<lambda>r. JSON_stringify_keys (body r))
     (requests (trace (snd (generateText_bundle 1
        (scripted [assistant_message ''Hello'' None]) (test_options_bundle (Some (ToolArray [])))
        (world0 [user_message ''hi''])))))
   = [[''model'', ''messages'']]"
  by code_simp

theorem C6_tools_field_without_tools_witness:
  "(\<exists>evs. trace (snd (generateText_bundle 1 (scripted [assistant_message ''Hello'' None])
          (test_options_bundle (Some (ToolArray []))) (world0 [user_message ''hi''])))
        = trace (world0 [user_message ''hi'']) @ evs
      \<and> requests evs \<noteq> []
      \<and> (\<forall>r \<in> set (requests evs).
            b_tools (body r) = Undefined \<and> ''tools'' \<notin> set (JSON_stringify_keys (body r))))
   \<and> (\<exists>evs. trace (snd (generateText generateToolsJsonSchema_p4 1
          (scripted [assistant_message ''Hello'' None]) (test_options None)
          (world0 [user_message ''hi''])))
        = trace (world0 [user_message ''hi'']) @ evs
      \<and> requests evs \<noteq> []
      \<and> (\<forall>r \<in> set (requests evs).
            b_tools (body r) = Null \<and> ''tools'' \<in> set (JSON_stringify_keys (body r))))"
proof -
  let ?w = "world0 [user_message ''hi'']"
  let ?P = "scripted [assistant_message ''Hello'' None]"
  let ?b = "test_options_bundle (Some (ToolArray []))"
  let ?o = "test_options None"
  have hb: "gtb_tools ?b = None \<or> gtb_tools ?b = Some (ToolArray [])
      \<or> gtb_tools ?b = Some (ToolRecord [])"
    by (simp add: test_options_bundle_def)
  have ho: "gt_tools ?o = None \<or> gt_tools ?o = Some []"
    by (simp add: test_options_def)
  have t0: "trace ?w = []" by (simp add: world0_def)
  have nb: "requests (trace (snd (generateText_bundle 1 ?P ?b ?w))) \<noteq> []"
    by code_simp
  have no: "requests (trace (snd (generateText generateToolsJsonSchema_p4 1 ?P ?o ?w))) \<noteq> []"
    by code_simp
  from C6_tools_field_without_tools [where boptions = "?b" and fuel = 1 and P = "?P"
      and w = "?w" and options = "?o"] hb ho
  obtain evs1 evs2 where
    e1: "trace (snd (generateText_bundle 1 ?P ?b ?w)) = trace ?w @ evs1"
      "\<forall>r \<in> set (requests evs1).
          b_tools (body r) = Undefined \<and> ''tools'' \<notin> set (JSON_stringify_keys (body r))"
    and e2: "trace (snd (generateText generateToolsJsonSchema_p4 1 ?P ?o ?w)) = trace ?w @ evs2"
      "\<forall>r \<in> set (requests evs2).
          b_tools (body r) = Null \<and> ''tools'' \<in> set (JSON_stringify_keys (body r))"
    by blast
  have "requests evs1 \<noteq> []" using nb e1(1) t0 by simp
  moreover have "requests evs2 \<noteq> []" using no e2(1) t0 by simp
  ultimately show ?thesis using e1 e2 by blast
qed

section \<open>Structured output\<close>

lemma for_calls_generateObject:
  "calls \<noteq> [] \<Longrightarrow> fst (for_calls P self True a calls w) \<noteq> Normal"
  by (cases calls) (simp_all add: Let_def split: option.splits)

text \<open>With the flag \<^verbatim>\<open>generateObject\<close> a turn of \<^verbatim>\<open>chat\<close> never falls through.\<close>

lemma chat_round_generateObject:
  assumes msgs: "messages self = Some a"
  shows "fst (chat_round toolsJson P self True w) \<noteq> Normal"
proof -
  let ?req = "chat_request toolsJson self w"
  obtain res s where answer: "fetch P (server w) ?req = (res, s)"
    by (cases "fetch P (server w) ?req") auto
  have sent: "post P ?req w = (res, w\<lparr>server := s, trace := trace w @ [Fetch ?req]\<rparr>)"
    using answer by (rule post_eq)
  show ?thesis
  proof (cases res)
    case (Inl e)
    then show ?thesis using sent by (simp add: chat_round_def)
  next
    case (Inr r)
    note r = this
    show ?thesis
    proof (cases "json_body r")
      case None
      then show ?thesis using sent r by (simp add: chat_round_def)
    next
      case (Some body)
      note body = this
      show ?thesis
      proof (cases "first_message body")
        case None
        then show ?thesis using sent r body by (simp add: chat_round_def)
      next
        case (Some assistant)
        note assistant = this
        have answer': "fetch P (server w) ?req = (Inr r, s)" using answer r by simp
        show ?thesis
        proof (cases "tool_calls assistant = None \<or> tool_calls assistant = Some []")
          case True
          show ?thesis
            unfolding chat_round_final [OF msgs answer' body assistant True] by simp
        next
          case False
          then obtain calls where calls: "tool_calls assistant = Some calls" "calls \<noteq> []"
            by (cases "tool_calls assistant") auto
          show ?thesis
            unfolding chat_round_calls [OF msgs answer' body assistant calls]
            by (rule for_calls_generateObject [OF calls(2)])
        qed
      qed
    qed
  qed
qed

text \<open>So \<^verbatim>\<open>chat\<close> with the flag sends exactly one request, carrying the array of
  \<^verbatim>\<open>this.messages\<close> as it is at the call.\<close>

lemma chat_generateObject_requests:
  assumes msgs: "messages self = Some a"
  shows "requests (trace (snd (chat toolsJson (Suc n) P self None True w)))
     = requests (trace w) @ [chat_request toolsJson self w]"
proof -
  obtain fl w1 where turn: "chat_round toolsJson P self True w = (fl, w1)"
    by (cases "chat_round toolsJson P self True w") auto
  with chat_round_generateObject [OF msgs, of toolsJson P w] obtain c where fl: "fl = Abrupt c"
    by (cases fl) auto
  from chat_round_frame [OF msgs, of toolsJson P True w] turn obtain added evs s where
    w1: "w1 = w\<lparr>arrays := (arrays w)(a := arrays w a @ added), server := s,
        trace := trace w @ Fetch (chat_request toolsJson self w) # evs\<rparr>"
    and evs: "requests evs = []"
    by auto
  have "chat toolsJson (Suc n) P self None True w = (Some c, w1)"
    using turn fl by (simp add: chat_def truthy_def)
  then show ?thesis using w1 evs by simp
qed

lemma generateObject_world:
  "snd (generateObject toolsJson fuel P options w) =
     snd (chat toolsJson fuel P (generateObject_client P options) None True
            (ensure_system (go_messages options) w))"
  by (simp add: generateObject_def split: prod.splits option.splits completion.splits)

text \<open>
  C4, as stated: without a system message in the caller's input, the history sent is the
  preamble followed by the user's prompt, two messages. \<^verbatim>\<open>generateObject\<close> of
  \<^verbatim>\<open>src/fastai.ts\<close> takes the caller's array of messages, not a prompt, and sends all
  of it: for three messages without a system message it sends four.
\<close>

theorem C4_counterexample:
  "map (\<lambda>r. b_messages (body r))
     (requests (trace (snd (generateObject generateToolsJsonSchema 1 (scripted submit_script)
        object_options (world0 three_messages)))))
   = [Value [user_message ''Name a city'', assistant_message ''Which country?'' None,
             user_message ''France'', system_message submit_preamble]]"
  by code_simp

text \<open>
  C4, amended. The bundled \<^verbatim>\<open>generateObject\<close> sends one request whose history is
  exactly two messages: the system preamble (\<^verbatim>\<open>options.system\<close>, or the default
  text that tells the model to call \<^verbatim>\<open>submit_object\<close>) and then the user's prompt.
  \<^verbatim>\<open>generateObject\<close> of \<^verbatim>\<open>src/fastai.ts\<close>, when the caller's messages hold no
  system message, sends one request whose history is the caller's messages, all of them
  and in their order, and one system message with the default preamble, added once.
\<close>

theorem C4_history_sent:
  "requests (trace (snd (generateObject_bundle P boptions w)))
     = requests (trace w) @ [request_object_bundle boptions]
   \<and> b_messages (body (request_object_bundle boptions))
     = Value [system_message (case gob_system boptions of
                                None \<Rightarrow> systemPreamble_default | Some sys \<Rightarrow> sys),
              user_message (gob_prompt boptions)]
   \<and> (find (\<lambda>m. role m = R_system) (arrays w (go_messages options)) = None \<longrightarrow>
        (\<exists>req sent.
           requests (trace (snd (generateObject toolsJson (Suc n) P options w)))
             = requests (trace w) @ [req]
           \<and> b_messages (body req) = Value sent
           \<and> filter (\<lambda>m. role m \<noteq> R_system) sent = arrays w (go_messages options)
           \<and> filter (\<lambda>m. role m = R_system) sent = [system_message submit_preamble]))"
proof (intro conjI impI)
  obtain res s where answer: "fetch P (server w) (request_object_bundle boptions) = (res, s)"
    by (cases "fetch P (server w) (request_object_bundle boptions)") auto
  have "snd (generateObject_bundle P boptions w) =
      w\<lparr>server := s, trace := trace w @ [Fetch (request_object_bundle boptions)]\<rparr>"
    by (simp add: generateObject_bundle_def post_eq [OF answer] Let_def
        split: sum.splits option.splits)
  then show "requests (trace (snd (generateObject_bundle P boptions w)))
      = requests (trace w) @ [request_object_bundle boptions]"
    by simp
  show "b_messages (body (request_object_bundle boptions))
      = Value [system_message (case gob_system boptions of
                                 None \<Rightarrow> systemPreamble_default | Some sys \<Rightarrow> sys),
               user_message (gob_prompt boptions)]"
    by (simp add: request_object_bundle_def Let_def nullish_default_def)
next
  let ?a = "go_messages options"
  assume none: "find (\<lambda>m. role m = R_system) (arrays w ?a) = None"
  let ?self = "generateObject_client P options"
  let ?w1 = "push ?a (system_message submit_preamble) w"
  let ?sent = "arrays w ?a @ [system_message submit_preamble]"
  have msgs: "messages ?self = Some ?a" by (simp add: generateObject_client_def Let_def)
  have world: "snd (generateObject toolsJson (Suc n) P options w) =
      snd (chat toolsJson (Suc n) P ?self None True ?w1)"
    unfolding generateObject_world using none by (simp add: ensure_system_def)
  have reqs: "requests (trace (snd (generateObject toolsJson (Suc n) P options w)))
      = requests (trace w) @ [chat_request toolsJson ?self ?w1]"
    unfolding world chat_generateObject_requests [OF msgs] by (simp add: push_def)
  have sent: "b_messages (body (chat_request toolsJson ?self ?w1)) = Value ?sent"
    using msgs by (simp add: chat_request_def push_def)
  have no_system: "filter (\<lambda>m. role m = R_system) (arrays w ?a) = []"
    using none by (simp add: find_None_iff filter_empty_conv)
  then have kept: "filter (\<lambda>m. role m \<noteq> R_system) (arrays w ?a) = arrays w ?a"
    by (simp add: filter_empty_conv)
  have "filter (\<lambda>m. role m \<noteq> R_system) ?sent = arrays w ?a"
    using kept by (simp add: system_message_def)
  moreover have "filter (\<lambda>m. role m = R_system) ?sent = [system_message submit_preamble]"
    using no_system by (simp add: system_message_def)
  ultimately show "\<exists>req sent.
      requests (trace (snd (generateObject toolsJson (Suc n) P options w)))
        = requests (trace w) @ [req]
      \<and> b_messages (body req) = Value sent
      \<and> filter (\<lambda>m. role m \<noteq> R_system) sent = arrays w ?a
      \<and> filter (\<lambda>m. role m = R_system) sent = [system_message submit_preamble]"
    using reqs sent by blast
qed

text \<open>Both revisions on the same question; each returns the submitted string.\<close>

lemma generateObject_paris:
  "fst (generateObject generateToolsJsonSchema 1 (scripted submit_script) object_options
      (world0 three_messages)) = Some (Returned (JStr ''Paris''))"
  "fst (generateObject_bundle (scripted submit_script) (object_options_bundle None)
      (world0 [])) = Returned \<lparr>result_object = JStr ''Paris''\<rparr>"
  by code_simp+

theorem C4_history_sent_witness:
  "map (\<lambda>r. b_messages (body r))
      (requests (trace (snd (generateObject_bundle (scripted submit_script)
         (object_options_bundle None) (world0 [])))))
     = [Value [system_message systemPreamble_default, user_message ''Name a city in France'']]
   \<and> (\<exists>req sent.
         requests (trace (snd (generateObject generateToolsJsonSchema (Suc 0)
            (scripted submit_script) object_options (world0 three_messages)))) = [req]
         \<and> b_messages (body req) = Value sent
         \<and> filter (\<lambda>m. role m \<noteq> R_system) sent = three_messages
         \<and> filter (\<lambda>m. role m = R_system) sent = [system_message submit_preamble])"
proof -
  let ?w = "world0 three_messages"
  have none: "find (\<lambda>m. role m = R_system) (arrays ?w (go_messages object_options)) = None"
    by (simp add: world0_def object_options_def three_messages_def user_message_def
        assistant_message_def)
  have before: "arrays ?w (go_messages object_options) = three_messages"
    "requests (trace ?w) = []" "requests (trace (world0 [])) = []"
    by (simp_all add: world0_def object_options_def)
  note thm1 = C4_history_sent [where P = "scripted submit_script"
      and boptions = "object_options_bundle None" and w = "world0 []"]
  note thm2 = C4_history_sent [where P = "scripted submit_script" and w = "?w"
      and options = "object_options" and toolsJson = generateToolsJsonSchema and n = 0]
  have "map (\<lambda>r. b_messages (body r))
      (requests (trace (snd (generateObject_bundle (scripted submit_script)
         (object_options_bundle None) (world0 [])))))
     = [Value [system_message systemPreamble_default, user_message ''Name a city in France'']]"
    using thm1 unfolding before by (simp add: object_options_bundle_def)
  moreover have "\<exists>req sent.
         requests (trace (snd (generateObject generateToolsJsonSchema (Suc 0)
            (scripted submit_script) object_options ?w))) = [req]
         \<and> b_messages (body req) = Value sent
         \<and> filter (\<lambda>m. role m \<noteq> R_system) sent = three_messages
         \<and> filter (\<lambda>m. role m = R_system) sent = [system_message submit_preamble]"
    using thm2 none unfolding before by simp
  ultimately show ?thesis by blast
qed

section \<open>A batch of calls that resolve with valid arguments\<close>

text \<open>The results of such a batch: one tool message for each call, in the order of the
  calls, each answering its call's id.\<close>

lemma valid_batch_results:
  "\<forall>c \<in> set calls. validated P reg c \<noteq> None \<Longrightarrow>
   length (concat (map (call_result P reg) calls)) = length calls
   \<and> map tool_call_id (concat (map (call_result P reg) calls)) = map (\<lambda>c. Some (tc_id c)) calls
   \<and> list_all (\<lambda>m. role m = R_tool) (concat (map (call_result P reg) calls))"
proof (induction calls)
  case Nil
  show ?case by simp
next
  case (Cons c calls)
  then obtain tool args where "validated P reg c = Some (tool, args)" by auto
  then have "call_result P reg c = [tool_message (await (execute tool args)) c]"
    by (simp add: call_result_def)
  with Cons show ?case by (simp add: tool_message_def)
qed

text \<open>Their events: for each call its lookup and its run, and no call of the observer.\<close>

lemma valid_batch_events:
  "\<forall>c \<in> set calls. validated P reg c \<noteq> None \<Longrightarrow>
   list_all is_tool_event (concat (map (call_events P reg) calls))
   \<and> length (filter (\<lambda>e. case e of Execute n args \<Rightarrow> True | _ \<Rightarrow> False)
        (concat (map (call_events P reg) calls))) = length calls"
proof (induction calls)
  case Nil
  show ?case by simp
next
  case (Cons c calls)
  then obtain tool args where "validated P reg c = Some (tool, args)" by auto
  then have "call_events P reg c = [Lookup (fn_name c), Execute (name tool) args]"
    by (simp add: call_events_def)
  with Cons show ?case by simp
qed

text \<open>
  A turn of either loop whose answer carries \<open>N\<close> calls that all resolve with valid
  arguments: the turn falls through to the next request with the assistant's message
  and the \<open>N\<close> tool messages appended in the order of the calls; its effects are the
  request, then the calls of the loop's observer (if there is one) with the names in
  order, then the lookups and runs of the tools. The observer of \<^verbatim>\<open>chat\<close> is
  \<^verbatim>\<open>this.onToolCall\<close>, that of the bundled \<^verbatim>\<open>generateText\<close> is
  \<^verbatim>\<open>options.onToolCall\<close>.
\<close>

lemma chat_round_valid_batch:
  assumes "messages self = Some a"
    and "fetch P (server w) (chat_request toolsJson self w) = (Inr r, s)"
    and "json_body r = Some res"
    and "first_message res = Some assistant"
    and "tool_calls assistant = Some calls"
    and "calls \<noteq> []"
    and valid: "\<forall>c \<in> set calls. validated P (registry self) c \<noteq> None"
  shows "chat_round toolsJson P self False w =
     (Normal,
      w\<lparr>arrays := (arrays w)(a := arrays w a
            @ assistant # concat (map (call_result P (registry self)) calls)),
        server := s,
        trace := trace w @ Fetch (chat_request toolsJson self w)
          # (case onToolCall self of None \<Rightarrow> []
             | Some f \<Rightarrow> map (\<lambda>c. OnToolCall f (fn_name c)) calls)
          @ concat (map (call_events P (registry self)) calls)\<rparr>)"
  unfolding chat_round_calls [OF assms(1-6)]
  using for_calls_valid_prefix [OF valid, where rest = "[]"]
  by (cases w) (simp add: fun_eq_iff)

lemma round_bundle_valid_batch:
  assumes "fetch P (server w) (request_bundle sc w) = (Inr r, s)"
    and "json_body r = Some res"
    and "first_message res = Some assistant"
    and "tool_calls assistant = Some calls"
    and "calls \<noteq> []"
    and valid: "\<forall>c \<in> set calls. validated P (registry_bundle sc) c \<noteq> None"
  shows "round_bundle P sc w =
     (Normal,
      w\<lparr>arrays := (arrays w)(sc_messageHistory sc := arrays w (sc_messageHistory sc)
            @ assistant # concat (map (call_result P (registry_bundle sc)) calls)),
        server := s,
        trace := trace w @ Fetch (request_bundle sc w)
          # (case sc_onToolCall sc of None \<Rightarrow> []
             | Some f \<Rightarrow> map (\<lambda>c. OnToolCall f (fn_name c)) calls)
          @ concat (map (call_events P (registry_bundle sc)) calls)\<rparr>)"
  unfolding round_bundle_calls [OF assms(1-5)]
  using for_calls_bundle_valid_prefix [OF valid, where rest = "[]"]
  by (cases w) (simp add: fun_eq_iff)

text \<open>The next request of the bundled loop then carries the history with the \<open>N\<close>
  results.\<close>

lemma loop_bundle_valid_batch:
  assumes "fetch P (server w) (request_bundle sc w) = (Inr r, s)"
    and "json_body r = Some res"
    and "first_message res = Some assistant"
    and "tool_calls assistant = Some calls"
    and "calls \<noteq> []"
    and "\<forall>c \<in> set calls. validated P (registry_bundle sc) c \<noteq> None"
    and "round_bundle P sc w = (Normal, w')"
  shows "loop_bundle (Suc n) P sc w = loop_bundle n P sc w'"
    and "b_messages (body (request_bundle sc w')) =
      Value (arrays w (sc_messageHistory sc)
        @ assistant # concat (map (call_result P (registry_bundle sc)) calls))"
  using assms(7) round_bundle_valid_batch [OF assms(1-6)]
  by (auto simp: request_bundle_def)

section \<open>The observer given to generateText\<close>

text \<open>
  C1: for a response with \<open>N\<close> tool calls that all resolve with valid arguments,
  \<^verbatim>\<open>generateText\<close> appends \<open>N\<close> tool messages in the order of the calls before the
  next request, and the observer \<^verbatim>\<open>onToolCall\<close>, when supplied, is called \<open>N\<close> times
  with the names in order before any tool runs. This holds of the bundled
  \<^verbatim>\<open>generateText\<close> (\<open>round_bundle_valid_batch\<close>, \<open>valid_batch_results\<close>,
  \<open>generateText_bundle_echo\<close>) and of \<^verbatim>\<open>chat\<close> with the observer in
  \<^verbatim>\<open>this.onToolCall\<close>. \<^verbatim>\<open>generateText\<close> of \<^verbatim>\<open>src/fastai.ts\<close> declares the
  option \<^verbatim>\<open>onToolCall\<close> and does not hand it to the client: with the observer
  supplied in the options, the model's call of \<^verbatim>\<open>echo\<close> is looked up and run, its
  result is appended and sent with the second request, and the observer is never called,
  while the bundle calls it before the lookup.
\<close>

theorem C1_generateText_drops_onToolCall:
  "gt_onToolCall (test_options (Some [echo_tool])) = Some observer
   \<and> fst (generateText generateToolsJsonSchema 2 (scripted echo_script)
        (test_options (Some [echo_tool])) (world0 [user_message ''hi'']))
     = Some (Returned ''It says hello'')
   \<and> arrays (snd (generateText generateToolsJsonSchema 2 (scripted echo_script)
        (test_options (Some [echo_tool])) (world0 [user_message ''hi'']))) 0
     = [user_message ''hi'',
        assistant_message [] (Some [tool_call ''call_1'' ''echo'' ''\"hello\"'']),
        tool_message ''hello'' (tool_call ''call_1'' ''echo'' ''\"hello\"''),
        assistant_message ''It says hello'' None]
   \<and> filter (\<lambda>e. case e of Fetch r \<Rightarrow> False | _ \<Rightarrow> True)
       (trace (snd (generateText generateToolsJsonSchema 2 (scripted echo_script)
          (test_options (Some [echo_tool])) (world0 [user_message ''hi'']))))
     = [Lookup ''echo'', Execute ''echo'' (JStr ''hello'')]
   \<and> filter (\<lambda>e. case e of Fetch r \<Rightarrow> False | _ \<Rightarrow> True)
       (trace (snd (generateText_bundle 2 (scripted echo_script)
          (test_options_bundle (Some (ToolArray [echo_tool]))) (world0 [user_message ''hi'']))))
     = [OnToolCall observer ''echo'', Lookup ''echo'', Execute ''echo'' (JStr ''hello'')]"
  by code_simp

end
